theory Spec2Isabelle
  imports Main "HOL-Library.AList"
begin

section \<open>Zone cache of the DNS controller (pkg/dns/provider/zonecache.go)\<close>

text \<open>
  The development embeds the full-caching zone cache (\<open>defaultZoneCache\<close>) and the shared
  zone-state manager (\<open>zoneStates\<close>) as state-passing functions.  A call is modelled in
  sequential isolation: the mutexes of the source are not represented, the readings of
  \<open>time.Now()\<close> are arguments, the provider behind the updater callbacks is an abstract
  world \<open>'w\<close> that each callback reads and changes, and callbacks influence the cache only
  through the values they return.  Metrics, the cache-discard counter and log lines are
  collected as a list of events.  Only the full-caching strategy is embedded; the
  pass-through cache keeps no zone state.
\<close>

subsection \<open>Time and durations\<close>

text \<open>
  \<open>time.Time\<close> is an instant counted in nanoseconds from the zero time, so the zero value
  of the type is \<open>0\<close>; \<open>After\<close>, \<open>Add\<close> and \<open>IsZero\<close> are the methods the source
  uses.  \<open>time.Duration\<close> is a signed 64-bit count of nanoseconds: \<open>wrap64\<close> is the
  wrap-around of its arithmetic, and its division (\<open>quo64\<close>, by a non-zero divisor)
  truncates towards zero.
\<close>

type_synonym Time = int
type_synonym Duration = int

definition Time_After :: "Time \<Rightarrow> Time \<Rightarrow> bool" where
  "Time_After t u = (u < t)"

definition Time_Add :: "Time \<Rightarrow> Duration \<Rightarrow> Time" where
  "Time_Add t d = t + d"

definition Time_IsZero :: "Time \<Rightarrow> bool" where
  "Time_IsZero t = (t = 0)"

definition wrap64 :: "int \<Rightarrow> int" where
  "wrap64 x = (x + 2 ^ 63) mod 2 ^ 64 - 2 ^ 63"

definition mul64 :: "Duration \<Rightarrow> Duration \<Rightarrow> Duration" where
  "mul64 a b = wrap64 (a * b)"

definition add64 :: "Duration \<Rightarrow> Duration \<Rightarrow> Duration" where
  "add64 a b = wrap64 (a + b)"

definition quo64 :: "Duration \<Rightarrow> Duration \<Rightarrow> Duration" where
  "quo64 a b = wrap64 (if (a < 0) = (b < 0) then \<bar>a\<bar> div \<bar>b\<bar> else - (\<bar>a\<bar> div \<bar>b\<bar>))"

definition Second :: Duration where
  "Second = 1000000000"

subsection \<open>Zones, errors and events\<close>

text \<open>
  \<open>dns.ZoneID\<close> with the two fields the source compares.
\<close>

record ZoneID =
  ProviderType :: string
  ID :: string

text \<open>
  Modelled from the spec: the interface \<open>DNSHostedZone\<close>, declared outside the sources at
  hand.  A hosted zone exposes its zone id (\<open>Id()\<close> in the source, \<open>ZoneId\<close> here) and its
  metadata, of which the domain name is kept.
\<close>

record DNSHostedZone =
  ZoneId :: ZoneID
  Domain :: string

type_synonym DNSHostedZones = "DNSHostedZone list"

text \<open>
  Modelled from the spec: the error values of package \<open>errors\<close>, which is not part of the
  sources at hand.  An ownership conflict (\<open>AlreadyBusyForOwner\<close>) carries the creation
  time of the claiming entry (\<open>EntryCreatedAt\<close>); \<open>NotHosted\<close> is the failure of the
  record store for a zone it does not hold.
\<close>

datatype error =
    ThrottlingError string
  | AlreadyBusyForOwner Time
  | NotHosted ZoneID
  | OtherError string

text \<open>
  Modelled from the spec: the predicate \<open>errors.IsThrottlingError\<close>, which classifies
  the throttling errors.
\<close>

fun IsThrottlingError :: "error \<Rightarrow> bool" where
  "IsThrottlingError (ThrottlingError msg) = True"
| "IsThrottlingError e = False"

text \<open>
  The request types counted on a cache hit, and the observable effects of a call: the
  calls of the \<open>Metrics\<close> interface, the cache-discard counter of package \<open>metrics\<close>
  and the log lines.
\<close>

datatype metric = M_CACHED_GETZONES | M_CACHED_GETZONESTATE

datatype event =
    AddGenericRequests metric nat
  | AddZoneRequests string metric nat
  | AddZoneCacheDiscarding ZoneID
  | Infof string

subsection \<open>The record store\<close>

text \<open>
  Modelled from the spec: the record store \<open>InMemory\<close>, whose source is not at hand.  It
  keeps one snapshot per zone and supports store or replace, clone-read, incremental apply
  of one change, delete by zone and the listing of the stored zones.  The copy made by a
  clone-read (\<open>clone\<close>) and the effect of one change request on a snapshot (\<open>change\<close>)
  are parameters.  An entry is the hosted zone with its snapshot, found by the zone's id.
\<close>

type_synonym 'st InMemory = "(DNSHostedZone \<times> 'st) list"

text \<open>Modelled from the spec: the empty record store.\<close>

definition NewInMemory :: "'st InMemory" where
  "NewInMemory = []"

text \<open>Modelled from the spec: the entry the store holds for a zone id, if any.\<close>

definition InMemory_find :: "'st InMemory \<Rightarrow> ZoneID \<Rightarrow> (DNSHostedZone \<times> 'st) option" where
  "InMemory_find m zoneID = find (\<lambda>e. ZoneId (fst e) = zoneID) m"

text \<open>Modelled from the spec: delete by zone.\<close>

definition InMemory_DeleteZone :: "ZoneID \<Rightarrow> 'st InMemory \<Rightarrow> 'st InMemory" where
  "InMemory_DeleteZone zoneID m = filter (\<lambda>e. ZoneId (fst e) \<noteq> zoneID) m"

text \<open>Modelled from the spec: store or replace the snapshot of a zone.\<close>

definition InMemory_SetZone :: "DNSHostedZone \<Rightarrow> 'st \<Rightarrow> 'st InMemory \<Rightarrow> 'st InMemory" where
  "InMemory_SetZone zone state m = (zone, state) # InMemory_DeleteZone (ZoneId zone) m"

text \<open>
  Modelled from the spec: clone-read.  It fails for a zone the store does not hold and
  returns a copy of the stored snapshot otherwise.
\<close>

definition InMemory_CloneZoneState ::
  "('st \<Rightarrow> 'st) \<Rightarrow> DNSHostedZone \<Rightarrow> 'st InMemory \<Rightarrow> error + 'st" where
  "InMemory_CloneZoneState clone zone m =
     (case InMemory_find m (ZoneId zone) of
        None \<Rightarrow> Inl (NotHosted (ZoneId zone))
      | Some e \<Rightarrow> Inr (clone (snd e)))"

text \<open>
  Modelled from the spec: incremental apply of one change.  It fails for a zone the store
  does not hold and when the change fails on the snapshot, in both cases without changing
  the store; otherwise the changed snapshot replaces the stored one.
\<close>

definition InMemory_Apply ::
  "('req \<Rightarrow> 'st \<Rightarrow> error + 'st) \<Rightarrow> ZoneID \<Rightarrow> 'req \<Rightarrow> 'st InMemory \<Rightarrow> error + 'st InMemory" where
  "InMemory_Apply change zoneID req m =
     (case InMemory_find m zoneID of
        None \<Rightarrow> Inl (NotHosted zoneID)
      | Some e \<Rightarrow>
          (case change req (snd e) of
             Inl err \<Rightarrow> Inl err
           | Inr state \<Rightarrow> Inr (InMemory_SetZone (fst e) state m)))"

text \<open>Modelled from the spec: the zones the store holds a snapshot for.\<close>

definition InMemory_GetZones :: "'st InMemory \<Rightarrow> DNSHostedZones" where
  "InMemory_GetZones m = map fst m"

subsection \<open>Forwarded-domains cache\<close>

type_synonym forwardedDomainsCacheImpl = "(ZoneID \<times> string list) list"

definition newForwardedDomainsCacheImpl :: forwardedDomainsCacheImpl where
  "newForwardedDomainsCacheImpl = []"

definition fd_Get :: "forwardedDomainsCacheImpl \<Rightarrow> ZoneID \<Rightarrow> string list option" where
  "fd_Get fd zoneid = map_of fd zoneid"

definition fd_Set :: "forwardedDomainsCacheImpl \<Rightarrow> ZoneID \<Rightarrow> string list option \<Rightarrow> forwardedDomainsCacheImpl" where
  "fd_Set fd zoneid v =
     (case v of Some l \<Rightarrow> AList.update zoneid l fd | None \<Rightarrow> AList.delete zoneid fd)"

definition fd_DeleteZone :: "forwardedDomainsCacheImpl \<Rightarrow> ZoneID \<Rightarrow> forwardedDomainsCacheImpl" where
  "fd_DeleteZone fd zoneID = AList.delete zoneID fd"

subsection \<open>The shared zone-state manager\<close>

record zoneStateProxy =
  lastUpdateStart :: Time
  lastUpdateEnd :: Time

definition zeroProxy :: zoneStateProxy where
  "zeroProxy = \<lparr>lastUpdateStart = 0, lastUpdateEnd = 0\<rparr>"

text \<open>
  The maps of the manager are association lists.  A consumer (a \<open>*defaultZoneCache\<close>) is
  identified by a number, a proxy pointer by the zone id under which the registry holds
  the proxy: a write through the pointer changes the registry's entry.
\<close>

record 'st zoneStates =
  stateTTLGetter :: "ZoneID \<Rightarrow> Duration"
  inMemory :: "'st InMemory"
  proxies :: "(ZoneID \<times> zoneStateProxy) list"
  usedZones :: "(nat \<times> ZoneID list) list"
  forwardedDomainsCache :: "forwardedDomainsCacheImpl option"

definition newZoneStates :: "(ZoneID \<Rightarrow> Duration) \<Rightarrow> 'st zoneStates" where
  "newZoneStates ttlGetter =
     \<lparr>stateTTLGetter = ttlGetter, inMemory = NewInMemory, proxies = [], usedZones = [],
      forwardedDomainsCache = Some newForwardedDomainsCacheImpl\<rparr>"

definition getProxy :: "'st zoneStates \<Rightarrow> ZoneID \<Rightarrow> zoneStateProxy \<times> 'st zoneStates" where
  "getProxy s zoneID =
     (case map_of (proxies s) zoneID of
        None \<Rightarrow> (zeroProxy, s\<lparr>proxies := AList.update zoneID zeroProxy (proxies s)\<rparr>)
      | Some proxy \<Rightarrow> (proxy, s))"

definition cleanZoneState :: "'st zoneStates \<Rightarrow> ZoneID \<Rightarrow> ZoneID option \<Rightarrow> 'st zoneStates" where
  "cleanZoneState s zoneID proxy =
     (let s1 = s\<lparr>inMemory := InMemory_DeleteZone zoneID (inMemory s)\<rparr>;
          s2 = (case forwardedDomainsCache s1 of
                  None \<Rightarrow> s1
                | Some fd \<Rightarrow> s1\<lparr>forwardedDomainsCache := Some (fd_DeleteZone fd zoneID)\<rparr>)
      in case proxy of
           None \<Rightarrow> s2
         | Some p \<Rightarrow>
             s2\<lparr>proxies := AList.map_entry p
                   (\<lambda>x. x\<lparr>lastUpdateStart := 0, lastUpdateEnd := 0\<rparr>) (proxies s2)\<rparr>)"

definition CleanZoneState :: "'st zoneStates \<Rightarrow> ZoneID \<Rightarrow> 'st zoneStates" where
  "CleanZoneState s zoneID =
     (let (control, s1) = getProxy s zoneID in cleanZoneState s1 zoneID (Some zoneID))"


text \<open>
  The updater callbacks are function values of the cache; they run against the provider
  world and return their result with the world they leave behind.
\<close>

record ('w, 'st) abstractZonesCache =
  zonesTTL :: Duration
  zones :: DNSHostedZones
  zonesErr :: "error option"
  zonesNext :: Time
  zonesUpdater :: "'w \<Rightarrow> (DNSHostedZones \<times> error option) \<times> 'w"
  stateUpdater :: "DNSHostedZone \<Rightarrow> 'w \<Rightarrow> (error + 'st) \<times> 'w"

record ('w, 'st) defaultZoneCache = "('w, 'st) abstractZonesCache" +
  ident :: nat
  backoffOnError :: Duration

definition zoneStates_GetZoneState ::
  "('st \<Rightarrow> 'st) \<Rightarrow> 'st zoneStates \<Rightarrow> DNSHostedZone \<Rightarrow> ('w, 'st) defaultZoneCache \<Rightarrow> 'w \<Rightarrow>
   Time \<Rightarrow> Time \<Rightarrow> ('st option \<times> bool \<times> error option) \<times> 'st zoneStates \<times> 'w" where
  "zoneStates_GetZoneState clone s zone cache w start finish =
     (let (proxy, s1) = getProxy s (ZoneId zone);
          ttl = stateTTLGetter s1 (ZoneId zone)
      in if Time_After start (Time_Add (lastUpdateEnd proxy) ttl) then
           (let (r, w1) = stateUpdater cache zone w
            in case r of
                 Inr state \<Rightarrow>
                   ((Some state, False, None),
                    s1\<lparr>proxies := AList.map_entry (ZoneId zone)
                          (\<lambda>x. x\<lparr>lastUpdateStart := start, lastUpdateEnd := finish\<rparr>) (proxies s1),
                       inMemory := InMemory_SetZone zone state (inMemory s1)\<rparr>,
                    w1)
               | Inl err \<Rightarrow>
                   ((None, False, Some err),
                    cleanZoneState s1 (ZoneId zone) (Some (ZoneId zone)), w1))
         else
           (case InMemory_CloneZoneState clone zone (inMemory s1) of
              Inl err \<Rightarrow> ((None, True, Some err), s1, w)
            | Inr state \<Rightarrow> ((Some state, True, None), s1, w)))"

definition zoneStates_ReportZoneStateConflict ::
  "'st zoneStates \<Rightarrow> ZoneID \<Rightarrow> error option \<Rightarrow> bool \<times> 'st zoneStates" where
  "zoneStates_ReportZoneStateConflict s zoneID err =
     (let (proxy, s1) = getProxy s zoneID
      in if \<not> Time_IsZero (lastUpdateStart proxy) then
           (case err of
              Some (AlreadyBusyForOwner entryCreatedAt) \<Rightarrow>
                if Time_After entryCreatedAt (lastUpdateStart proxy)
                then (True, cleanZoneState s1 zoneID (Some zoneID))
                else (False, s1)
            | _ \<Rightarrow> (False, s1))
         else (False, s1))"

text \<open>
  The loop of \<open>ExecuteRequests\<close>; the metrics handed to \<open>Apply\<close> are the null metrics,
  so the loop records no event.
\<close>

fun ExecuteRequests_loop ::
  "('req \<Rightarrow> 'st \<Rightarrow> error + 'st) \<Rightarrow> ZoneID \<Rightarrow> 'req list \<Rightarrow> 'st InMemory \<Rightarrow>
   error option \<times> 'st InMemory" where
  "ExecuteRequests_loop change zoneID [] m = (None, m)"
| "ExecuteRequests_loop change zoneID (req # reqs) m =
     (case InMemory_Apply change zoneID req m of
        Inl err \<Rightarrow> (Some err, m)
      | Inr m' \<Rightarrow> ExecuteRequests_loop change zoneID reqs m')"

definition ExecuteRequests ::
  "('req \<Rightarrow> 'st \<Rightarrow> error + 'st) \<Rightarrow> 'st zoneStates \<Rightarrow> ZoneID \<Rightarrow> 'req list \<Rightarrow> 'st zoneStates" where
  "ExecuteRequests change s zoneID reqs =
     (let (proxy, s1) = getProxy s zoneID;
          (err, m) = ExecuteRequests_loop change zoneID reqs (inMemory s1);
          s2 = s1\<lparr>inMemory := m\<rparr>
      in if err \<noteq> None then cleanZoneState s2 zoneID (Some zoneID) else s2)"

text \<open>
  \<open>UpdateUsedZones\<close>: the three loops of the source are folds, over the recorded usage
  lists, over the zones of the record store and over the keys of the proxy registry.
\<close>

definition allUsedZones :: "(nat \<times> ZoneID list) list \<Rightarrow> ZoneID set" where
  "allUsedZones used = fold (\<lambda>entry allUsed. fold insert (snd entry) allUsed) used {}"

definition cleanUnusedZones :: "ZoneID set \<Rightarrow> DNSHostedZones \<Rightarrow> 'st zoneStates \<Rightarrow> 'st zoneStates" where
  "cleanUnusedZones allUsed zs s =
     fold (\<lambda>zone t. if ZoneId zone \<in> allUsed then t else cleanZoneState t (ZoneId zone) None) zs s"

definition deleteUnusedProxies :: "ZoneID set \<Rightarrow> ZoneID list \<Rightarrow> 'st zoneStates \<Rightarrow> 'st zoneStates" where
  "deleteUnusedProxies allUsed ids s =
     fold (\<lambda>id t. if id \<in> allUsed then t else t\<lparr>proxies := AList.delete id (proxies t)\<rparr>) ids s"

definition collectUnused :: "'st zoneStates \<Rightarrow> 'st zoneStates" where
  "collectUnused s =
     (let allUsed = allUsedZones (usedZones s);
          s1 = cleanUnusedZones allUsed (InMemory_GetZones (inMemory s)) s
      in deleteUnusedProxies allUsed (map fst (proxies s1)) s1)"

definition UpdateUsedZones :: "'st zoneStates \<Rightarrow> nat \<Rightarrow> ZoneID list \<Rightarrow> 'st zoneStates" where
  "UpdateUsedZones s cache zoneids =
     (let oldids = (case map_of (usedZones s) cache of None \<Rightarrow> [] | Some ids \<Rightarrow> ids)
      in if length zoneids = 0 then
           (if length oldids = 0 then s
            else collectUnused (s\<lparr>usedZones := AList.delete cache (usedZones s)\<rparr>))
         else
           (if oldids = zoneids then s
            else collectUnused (s\<lparr>usedZones := AList.update cache zoneids (usedZones s)\<rparr>)))"

text \<open>
  \<open>toSortedZoneIDs\<close>: \<open>strings.Compare\<close> compares byte-wise; the order of the comparator
  is total on zone ids, so every sorting algorithm returns the same list and the sort is
  written as an insertion sort.
\<close>

fun strings_Compare :: "string \<Rightarrow> string \<Rightarrow> int" where
  "strings_Compare [] [] = 0"
| "strings_Compare [] (y # ys) = - 1"
| "strings_Compare (x # xs) [] = 1"
| "strings_Compare (x # xs) (y # ys) =
     (if (of_char x :: nat) < of_char y then - 1
      else if (of_char y :: nat) < of_char x then 1
      else strings_Compare xs ys)"

definition zoneid_less :: "ZoneID \<Rightarrow> ZoneID \<Rightarrow> bool" where
  "zoneid_less a b =
     (let cmp1 = strings_Compare (ProviderType a) (ProviderType b);
          cmp2 = strings_Compare (ID a) (ID b)
      in cmp1 < 0 \<or> cmp1 = 0 \<and> cmp2 < 0)"

fun insertZoneID :: "ZoneID \<Rightarrow> ZoneID list \<Rightarrow> ZoneID list" where
  "insertZoneID z [] = [z]"
| "insertZoneID z (y # ys) = (if zoneid_less y z then y # insertZoneID z ys else z # y # ys)"

definition toSortedZoneIDs :: "DNSHostedZones \<Rightarrow> ZoneID list" where
  "toSortedZoneIDs zs =
     (if length zs = 0 then [] else foldr insertZoneID (map ZoneId zs) [])"

subsection \<open>The full-caching zone cache\<close>

definition nextBackoff :: "('w, 'st) defaultZoneCache \<Rightarrow> Duration \<times> ('w, 'st) defaultZoneCache" where
  "nextBackoff c =
     (let next = add64 (quo64 (mul64 (backoffOnError c) 5) 4) (mul64 2 Second);
          maxBackoff = quo64 (zonesTTL c) 4;
          next = (if next > maxBackoff then maxBackoff else next)
      in (next, c\<lparr>backoffOnError := next\<rparr>))"

definition clearBackoff :: "('w, 'st) defaultZoneCache \<Rightarrow> ('w, 'st) defaultZoneCache" where
  "clearBackoff c = c\<lparr>backoffOnError := 0\<rparr>"

definition GetZones ::
  "('w, 'st) defaultZoneCache \<Rightarrow> 'st zoneStates \<Rightarrow> 'w \<Rightarrow> Time \<Rightarrow> Time \<Rightarrow>
   (DNSHostedZones \<times> error option) \<times> event list \<times> ('w, 'st) defaultZoneCache \<times> 'st zoneStates \<times> 'w" where
  "GetZones c s w now updateTime =
     (if Time_After now (zonesNext c) then
        (let (r, w1) = zonesUpdater c w;
             c1 = c\<lparr>zones := fst r, zonesErr := snd r\<rparr>;
             c2 = (if zonesErr c1 \<noteq> None then
                     (let (backoff, cb) = nextBackoff c1
                      in cb\<lparr>zonesNext := Time_Add updateTime backoff\<rparr>)
                   else (clearBackoff c1)\<lparr>zonesNext := Time_Add updateTime (zonesTTL c1)\<rparr>);
             s1 = UpdateUsedZones s (ident c2) (toSortedZoneIDs (zones c2))
         in ((zones c2, zonesErr c2), [], c2, s1, w1))
      else ((zones c, zonesErr c), [AddGenericRequests M_CACHED_GETZONES 1], c, s, w))"

definition defaultZoneCache_GetZoneState ::
  "('st \<Rightarrow> 'st) \<Rightarrow> ('w, 'st) defaultZoneCache \<Rightarrow> 'st zoneStates \<Rightarrow> DNSHostedZone \<Rightarrow> 'w \<Rightarrow>
   Time \<Rightarrow> Time \<Rightarrow> ('st option \<times> error option) \<times> event list \<times> 'st zoneStates \<times> 'w" where
  "defaultZoneCache_GetZoneState clone c s zone w start finish =
     (let ((state, cached, err), s1, w1) = zoneStates_GetZoneState clone s zone c w start finish
      in ((state, err),
          (if cached then [AddZoneRequests (ID (ZoneId zone)) M_CACHED_GETZONESTATE 1] else []),
          s1, w1))"

definition defaultZoneCache_ReportZoneStateConflict ::
  "'st zoneStates \<Rightarrow> DNSHostedZone \<Rightarrow> error option \<Rightarrow> bool \<times> 'st zoneStates" where
  "defaultZoneCache_ReportZoneStateConflict s zone err =
     zoneStates_ReportZoneStateConflict s (ZoneId zone) err"

definition defaultZoneCache_cleanZoneState :: "'st zoneStates \<Rightarrow> ZoneID \<Rightarrow> 'st zoneStates" where
  "defaultZoneCache_cleanZoneState s zoneID = CleanZoneState s zoneID"

definition ApplyRequests ::
  "('req \<Rightarrow> 'st \<Rightarrow> error + 'st) \<Rightarrow> 'st zoneStates \<Rightarrow> error option \<Rightarrow> DNSHostedZone \<Rightarrow> 'req list \<Rightarrow>
   event list \<times> 'st zoneStates" where
  "ApplyRequests change s err zone reqs =
     (case err of
        None \<Rightarrow> ([], ExecuteRequests change s (ZoneId zone) reqs)
      | Some e \<Rightarrow>
          if \<not> IsThrottlingError e then
            ([Infof ''zone cache discarded because of error during ExecuteRequests'',
              AddZoneCacheDiscarding (ZoneId zone)],
             defaultZoneCache_cleanZoneState s (ZoneId zone))
          else ([Infof ''zone cache untouched (only throttling during ExecuteRequests)''], s))"

definition Release :: "('w, 'st) defaultZoneCache \<Rightarrow> 'st zoneStates \<Rightarrow> 'st zoneStates" where
  "Release c s = UpdateUsedZones s (ident c) []"

subsection \<open>Observations of the manager state\<close>

text \<open>
  The timestamps of a zone are read from the registry; a zone without a proxy reads as the
  zero proxy, which is what \<open>getProxy\<close> creates on first access.  The forwarded domains
  of a zone are read from the forwarded-domains cache of the manager.
\<close>

definition proxyTimes :: "'st zoneStates \<Rightarrow> ZoneID \<Rightarrow> zoneStateProxy" where
  "proxyTimes s zoneID = (case map_of (proxies s) zoneID of None \<Rightarrow> zeroProxy | Some p \<Rightarrow> p)"

definition forwardedDomains :: "'st zoneStates \<Rightarrow> ZoneID \<Rightarrow> string list option" where
  "forwardedDomains s zoneID = (case forwardedDomainsCache s of None \<Rightarrow> None | Some fd \<Rightarrow> fd_Get fd zoneID)"

subsection \<open>Example values\<close>

definition zidA :: ZoneID where "zidA = \<lparr>ProviderType = ''aws-route53'', ID = ''A''\<rparr>"
definition zidB :: ZoneID where "zidB = \<lparr>ProviderType = ''aws-route53'', ID = ''B''\<rparr>"
definition zoneA :: DNSHostedZone where "zoneA = \<lparr>ZoneId = zidA, Domain = ''a.example.com''\<rparr>"
definition zoneB :: DNSHostedZone where "zoneB = \<lparr>ZoneId = zidB, Domain = ''b.example.com''\<rparr>"

definition ttl60 :: "ZoneID \<Rightarrow> Duration" where "ttl60 zid = 60 * Second"

definition cacheOK :: "(nat, nat list) defaultZoneCache" where
  "cacheOK = \<lparr>zonesTTL = 600 * Second, zones = [], zonesErr = None, zonesNext = 0,
     zonesUpdater = (\<lambda>w. (([zoneB, zoneA], None), Suc w)),
     stateUpdater = (\<lambda>z w. (Inr [7, 8], Suc w)), ident = 1, backoffOnError = 0\<rparr>"

definition stateA :: "nat list zoneStates" where
  "stateA = \<lparr>stateTTLGetter = ttl60, inMemory = [(zoneA, [1, 2])],
     proxies = [(zidA, \<lparr>lastUpdateStart = 10 * Second, lastUpdateEnd = 11 * Second\<rparr>)],
     usedZones = [(1, [zidA])], forwardedDomainsCache = Some [(zidA, [''sub.a.example.com''])]\<rparr>"

definition cacheDown :: "(nat, nat list) defaultZoneCache" where
  "cacheDown = cacheOK\<lparr>zonesUpdater := (\<lambda>w. (([], Some (OtherError ''no route'')), Suc w)),
     stateUpdater := (\<lambda>z w. (Inl (OtherError ''timeout''), Suc w))\<rparr>"

definition stateA_cleaned :: "nat list zoneStates" where
  "stateA_cleaned = stateA\<lparr>inMemory := [], proxies := [(zidA, zeroProxy)],
     forwardedDomainsCache := Some []\<rparr>"

definition appendChange :: "nat \<Rightarrow> nat list \<Rightarrow> error + nat list" where
  "appendChange req state = (if req = 0 then Inl (OtherError ''rejected'') else Inr (state @ [req]))"

definition cacheWarm :: "(nat, nat list) defaultZoneCache" where
  "cacheWarm = cacheOK\<lparr>zones := [zoneB, zoneA], zonesNext := 602 * Second\<rparr>"

definition stateA_released :: "nat list zoneStates" where
  "stateA_released = stateA\<lparr>inMemory := [], proxies := [], usedZones := [],
     forwardedDomainsCache := Some []\<rparr>"

subsection \<open>Consecutive failed refreshes\<close>

text \<open>
  The cache after \<open>n\<close> consecutive failed refreshes of the zone list, as far as the
  backoff is concerned: each failed refresh of \<open>GetZones\<close> runs \<open>nextBackoff\<close> once.
\<close>

fun failedRefreshes :: "nat \<Rightarrow> ('w, 'st) defaultZoneCache \<Rightarrow> ('w, 'st) defaultZoneCache" where
  "failedRefreshes 0 c = c"
| "failedRefreshes (Suc n) c = snd (nextBackoff (failedRefreshes n c))"

definition cacheLongTTL :: "(nat, nat list) defaultZoneCache" where
  "cacheLongTTL = cacheDown\<lparr>zonesTTL := 9223372036854775807\<rparr>"

definition cacheNegTTL :: "(nat, nat list) defaultZoneCache" where
  "cacheNegTTL = cacheDown\<lparr>zonesTTL := - 4000000000000000000\<rparr>"

subsection \<open>Write-through as the specification words it\<close>

text \<open>
  Following the specification, not the code: the change requests applied to one snapshot
  sequentially, in the given order, stopping at the first failure.  The result is the
  first error, if any, with the snapshot reached before it.
\<close>

fun changesInOrder :: "('req \<Rightarrow> 'st \<Rightarrow> error + 'st) \<Rightarrow> 'req list \<Rightarrow> 'st \<Rightarrow> error option \<times> 'st" where
  "changesInOrder change [] state = (None, state)"
| "changesInOrder change (req # reqs) state =
     (case change req state of
        Inl err \<Rightarrow> (Some err, state)
      | Inr state' \<Rightarrow> changesInOrder change reqs state')"

text \<open>A zone is invalidated when none of its cached state is left.\<close>

definition invalidated :: "'st zoneStates \<Rightarrow> ZoneID \<Rightarrow> bool" where
  "invalidated s zoneID \<longleftrightarrow>
     InMemory_find (inMemory s) zoneID = None \<and> forwardedDomains s zoneID = None \<and>
     map_of (proxies s) zoneID = Some zeroProxy"

subsection \<open>Usage sets\<close>

text \<open>
  The usage list recorded for a consumer (empty when none is recorded) and the union of
  all recorded usage lists, the zones the manager may retain.
\<close>

definition retainedZones :: "'st zoneStates \<Rightarrow> ZoneID set" where
  "retainedZones s = (\<Union>entry \<in> set (usedZones s). set (snd entry))"

definition recordedZones :: "'st zoneStates \<Rightarrow> nat \<Rightarrow> ZoneID list" where
  "recordedZones s cache = (case map_of (usedZones s) cache of None \<Rightarrow> [] | Some ids \<Rightarrow> ids)"

subsection \<open>Example states with two zones\<close>

text \<open>
  \<open>stateA_forwarded\<close> is reached from a new manager: consumer 1 reports zone A, a
  refresh of A's state fails, which registers A's proxy and leaves no snapshot, and the
  forwarded domains of A are then set through the handle of the forwarded-domains cache.
\<close>

definition stateA_forwarded :: "nat list zoneStates" where
  "stateA_forwarded =
     (let s1 = UpdateUsedZones (newZoneStates ttl60) 1 [zidA];
          s2 = fst (snd (zoneStates_GetZoneState rev s1 zoneA cacheDown 0 (80 * Second) (81 * Second)))
      in s2\<lparr>forwardedDomainsCache :=
               map_option (\<lambda>fd. fd_Set fd zidA (Some [''sub.a.example.com'']))
                 (forwardedDomainsCache s2)\<rparr>)"

definition stateAB :: "nat list zoneStates" where
  "stateAB = \<lparr>stateTTLGetter = ttl60, inMemory = [(zoneB, [5]), (zoneA, [1, 2])],
     proxies = [(zidB, \<lparr>lastUpdateStart = 20 * Second, lastUpdateEnd = 21 * Second\<rparr>),
                (zidA, \<lparr>lastUpdateStart = 10 * Second, lastUpdateEnd = 11 * Second\<rparr>)],
     usedZones = [(1, [zidA, zidB]), (2, [zidB])],
     forwardedDomainsCache = Some [(zidA, [''sub.a.example.com'']), (zidB, [''sub.b.example.com''])]\<rparr>"

definition stateAB_released :: "nat list zoneStates" where
  "stateAB_released = stateAB\<lparr>inMemory := [(zoneB, [5])],
     proxies := [(zidB, \<lparr>lastUpdateStart = 20 * Second, lastUpdateEnd = 21 * Second\<rparr>)],
     usedZones := [(2, [zidB])],
     forwardedDomainsCache := Some [(zidB, [''sub.b.example.com''])]\<rparr>"

text \<open>
  \<open>stateC_unreported\<close> is reached from a new manager: consumer 1 reports the zones A and
  B, and the state of a third zone C, which no consumer reported, is fetched.
\<close>

definition zidC :: ZoneID where "zidC = \<lparr>ProviderType = ''aws-route53'', ID = ''C''\<rparr>"
definition zoneC :: DNSHostedZone where "zoneC = \<lparr>ZoneId = zidC, Domain = ''c.example.com''\<rparr>"

definition stateC_unreported :: "nat list zoneStates" where
  "stateC_unreported =
     (let s1 = UpdateUsedZones (newZoneStates ttl60) 1 [zidA, zidB]
      in fst (snd (zoneStates_GetZoneState rev s1 zoneC cacheOK 0 (80 * Second) (81 * Second))))"

section \<open>Basic facts\<close>

lemmas fixture_defs = zidA_def zidB_def zoneA_def zoneB_def ttl60_def cacheOK_def stateA_def Second_def
  cacheDown_def stateA_cleaned_def appendChange_def cacheLongTTL_def

lemmas model_defs = zoneStates_GetZoneState_def getProxy_def cleanZoneState_def
  InMemory_CloneZoneState_def InMemory_find_def InMemory_SetZone_def InMemory_DeleteZone_def
  Time_After_def Time_Add_def Time_IsZero_def zeroProxy_def proxyTimes_def forwardedDomains_def
  fd_Get_def fd_DeleteZone_def

lemma find_DeleteZone:
  "InMemory_find (InMemory_DeleteZone zoneID m) z = (if z = zoneID then None else InMemory_find m z)"
  by (induction m) (auto simp: InMemory_find_def InMemory_DeleteZone_def)

lemma find_SetZone:
  "InMemory_find (InMemory_SetZone zone state m) z =
     (if z = ZoneId zone then Some (zone, state) else InMemory_find m z)"
proof -
  have "InMemory_find ((zone, state) # m') z =
          (if z = ZoneId zone then Some (zone, state) else InMemory_find m' z)" for m'
    by (auto simp: InMemory_find_def)
  then show ?thesis
    by (simp add: InMemory_SetZone_def find_DeleteZone)
qed

lemma find_Some_id: "InMemory_find m z = Some e \<Longrightarrow> ZoneId (fst e) = z"
  by (induction m) (auto simp: InMemory_find_def split: if_splits)

lemma find_None_iff: "InMemory_find m z = None \<longleftrightarrow> z \<notin> ZoneId ` fst ` set m"
  by (induction m) (auto simp: InMemory_find_def)

lemma getProxy_fst: "fst (getProxy s zoneID) = proxyTimes s zoneID"
  by (simp add: getProxy_def proxyTimes_def split: option.splits)

lemma getProxy_proxies:
  "map_of (proxies (snd (getProxy s zoneID))) = (map_of (proxies s))(zoneID \<mapsto> proxyTimes s zoneID)"
  by (auto simp: getProxy_def proxyTimes_def update_conv' split: option.splits)

lemma getProxy_fields:
  "inMemory (snd (getProxy s zoneID)) = inMemory s"
  "forwardedDomainsCache (snd (getProxy s zoneID)) = forwardedDomainsCache s"
  "usedZones (snd (getProxy s zoneID)) = usedZones s"
  "stateTTLGetter (snd (getProxy s zoneID)) = stateTTLGetter s"
  by (simp_all add: getProxy_def split: option.splits)

lemma getProxy_proxyTimes: "proxyTimes (snd (getProxy s zoneID)) z = proxyTimes s z"
  by (simp add: proxyTimes_def getProxy_proxies split: option.splits)

lemma getProxy_forwardedDomains: "forwardedDomains (snd (getProxy s zoneID)) z = forwardedDomains s z"
  by (simp add: forwardedDomains_def getProxy_fields)

lemma cleanZoneState_inMemory:
  "inMemory (cleanZoneState s zoneID p) = InMemory_DeleteZone zoneID (inMemory s)"
  by (simp add: cleanZoneState_def Let_def split: option.splits)

lemma cleanZoneState_forwardedDomains:
  "forwardedDomains (cleanZoneState s zoneID p) z =
     (if z = zoneID then None else forwardedDomains s z)"
  by (auto simp: cleanZoneState_def Let_def forwardedDomains_def fd_Get_def fd_DeleteZone_def
        delete_conv' split: option.splits)

lemma cleanZoneState_proxies_Some:
  "map_of (proxies (cleanZoneState s zoneID (Some p))) =
     (map_of (proxies s))(p := map_option (\<lambda>x. zeroProxy) (map_of (proxies s) p))"
  by (auto simp: cleanZoneState_def Let_def map_of_map_entry zeroProxy_def fun_eq_iff
        split: option.splits)

lemma cleanZoneState_proxies_None: "proxies (cleanZoneState s zoneID None) = proxies s"
  by (simp add: cleanZoneState_def Let_def split: option.splits)

lemma cleanZoneState_usedZones: "usedZones (cleanZoneState s zoneID p) = usedZones s"
  by (simp add: cleanZoneState_def Let_def split: option.splits)

lemma cleanZoneState_stateTTLGetter: "stateTTLGetter (cleanZoneState s zoneID p) = stateTTLGetter s"
  by (simp add: cleanZoneState_def Let_def split: option.splits)


lemma proxies_write:
  "map_of (AList.map_entry zoneID f (proxies (snd (getProxy s zoneID)))) =
     (map_of (proxies s))(zoneID \<mapsto> f (proxyTimes s zoneID))"
  by (auto simp: map_of_map_entry getProxy_proxies fun_eq_iff)

lemma clean_after_getProxy:
  "map_of (proxies (cleanZoneState (snd (getProxy s zoneID)) zoneID (Some zoneID))) =
     (map_of (proxies s))(zoneID \<mapsto> zeroProxy)"
  by (auto simp: cleanZoneState_proxies_Some getProxy_proxies fun_eq_iff)

lemma GetZoneState_expired:
  assumes "lastUpdateEnd (proxyTimes s (ZoneId zone)) + stateTTLGetter s (ZoneId zone) < start"
  shows "zoneStates_GetZoneState clone s zone cache w start finish =
     (case fst (stateUpdater cache zone w) of
        Inr state \<Rightarrow>
          ((Some state, False, None),
           (snd (getProxy s (ZoneId zone)))
             \<lparr>proxies := AList.map_entry (ZoneId zone)
                (\<lambda>x. x\<lparr>lastUpdateStart := start, lastUpdateEnd := finish\<rparr>)
                (proxies (snd (getProxy s (ZoneId zone)))),
              inMemory := InMemory_SetZone zone state (inMemory s)\<rparr>,
           snd (stateUpdater cache zone w))
      | Inl err \<Rightarrow>
          ((None, False, Some err),
           cleanZoneState (snd (getProxy s (ZoneId zone))) (ZoneId zone) (Some (ZoneId zone)),
           snd (stateUpdater cache zone w)))"
  using assms
  by (simp add: zoneStates_GetZoneState_def case_prod_unfold getProxy_fst getProxy_fields
        Time_After_def Time_Add_def Let_def split: sum.splits)

lemma GetZoneState_expired_refreshes:
  assumes "lastUpdateEnd (proxyTimes s (ZoneId zone)) + stateTTLGetter s (ZoneId zone) < start"
  shows "\<not> fst (snd (fst (zoneStates_GetZoneState clone s zone cache w start finish)))"
    and "snd (snd (zoneStates_GetZoneState clone s zone cache w start finish)) =
           snd (stateUpdater cache zone w)"
proof -
  note eq = GetZoneState_expired [OF assms, of clone cache w finish]
  show "\<not> fst (snd (fst (zoneStates_GetZoneState clone s zone cache w start finish)))"
    by (cases "fst (stateUpdater cache zone w)") (simp_all add: eq)
  show "snd (snd (zoneStates_GetZoneState clone s zone cache w start finish)) =
           snd (stateUpdater cache zone w)"
    by (cases "fst (stateUpdater cache zone w)") (simp_all add: eq)
qed

lemmas more_defs = zoneStates_ReportZoneStateConflict_def defaultZoneCache_ReportZoneStateConflict_def
  ApplyRequests_def defaultZoneCache_cleanZoneState_def CleanZoneState_def

lemmas GetZones_defs = GetZones_def nextBackoff_def clearBackoff_def UpdateUsedZones_def
  collectUnused_def allUsedZones_def cleanUnusedZones_def deleteUnusedProxies_def
  InMemory_GetZones_def toSortedZoneIDs_def zoneid_less_def
  mul64_def add64_def quo64_def wrap64_def cacheWarm_def stateA_released_def

lemma wrap64_id: "- (2 ^ 63) \<le> x \<Longrightarrow> x < 2 ^ 63 \<Longrightarrow> wrap64 x = x"
  by (simp add: wrap64_def)

lemma nextBackoff_fields:
  "zonesTTL (snd (nextBackoff c)) = zonesTTL c"
  "backoffOnError (snd (nextBackoff c)) = fst (nextBackoff c)"
  "zones (snd (nextBackoff c)) = zones c"
  "zonesErr (snd (nextBackoff c)) = zonesErr c"
  "ident (snd (nextBackoff c)) = ident c"
  by (simp_all add: nextBackoff_def Let_def)

lemma nextBackoff_in_range:
  assumes "0 \<le> zonesTTL c" "5 * (zonesTTL c div 4) < 2 ^ 63"
    and "0 \<le> backoffOnError c" "backoffOnError c \<le> zonesTTL c div 4"
  shows "fst (nextBackoff c) = min (backoffOnError c * 5 div 4 + 2 * Second) (zonesTTL c div 4)"
proof -
  let ?b = "backoffOnError c" and ?t = "zonesTTL c"
  have m: "mul64 ?b 5 = ?b * 5"
    using assms by (simp add: mul64_def wrap64_id)
  have q: "quo64 (?b * 5) 4 = ?b * 5 div 4"
    using assms by (simp add: quo64_def wrap64_id)
  have s: "mul64 2 Second = 2 * Second"
    by (simp add: mul64_def Second_def wrap64_id)
  have a: "add64 (?b * 5 div 4) (2 * Second) = ?b * 5 div 4 + 2 * Second"
    using assms by (simp add: add64_def Second_def wrap64_id)
  have t: "quo64 ?t 4 = ?t div 4"
    using assms by (simp add: quo64_def wrap64_id)
  show ?thesis
    by (simp add: nextBackoff_def m q s a t Let_def min_def)
qed

lemma failedRefreshes_TTL: "zonesTTL (failedRefreshes n c) = zonesTTL c"
  by (induction n) (simp_all add: nextBackoff_fields)


lemma failedRefreshes_step:
  assumes ttl: "0 \<le> zonesTTL c" "5 * (zonesTTL c div 4) < 2 ^ 63"
    and zero: "backoffOnError c = 0"
  shows "0 \<le> backoffOnError (failedRefreshes n c) \<and>
         backoffOnError (failedRefreshes n c) \<le> zonesTTL c div 4 \<and>
         backoffOnError (failedRefreshes (Suc n) c) =
           min (backoffOnError (failedRefreshes n c) * 5 div 4 + 2 * Second) (zonesTTL c div 4)"
proof (induction n)
  case 0
  have "0 \<le> zonesTTL c div 4" using ttl by simp
  then show ?case
    using nextBackoff_in_range [of c] ttl zero
    by (simp add: nextBackoff_fields)
next
  case (Suc n)
  let ?c = "failedRefreshes (Suc n) c"
  have cap: "0 \<le> zonesTTL c div 4" using ttl by simp
  have "0 \<le> backoffOnError (failedRefreshes n c) * 5 div 4"
    using Suc by (simp add: pos_imp_zdiv_nonneg_iff)
  then have lo: "0 \<le> backoffOnError ?c"
    using Suc cap by (simp add: Second_def min_def)
  have hi: "backoffOnError ?c \<le> zonesTTL c div 4"
    using Suc by simp
  have "fst (nextBackoff ?c) = min (backoffOnError ?c * 5 div 4 + 2 * Second) (zonesTTL ?c div 4)"
    using ttl lo hi by (intro nextBackoff_in_range) (simp_all only: failedRefreshes_TTL)
  then show ?case
    using lo hi by (simp add: nextBackoff_fields failedRefreshes_TTL)
qed

lemma failedRefreshes_grows:
  assumes ttl: "0 \<le> zonesTTL c" "5 * (zonesTTL c div 4) < 2 ^ 63"
    and zero: "backoffOnError c = 0"
  shows "min (zonesTTL c div 4) (int n) \<le> backoffOnError (failedRefreshes n c)"
proof (induction n)
  case 0
  then show ?case using zero ttl by simp
next
  case (Suc n)
  note st = failedRefreshes_step [OF ttl zero, of n]
  then show ?case
    using Suc by (simp add: Second_def min_def split: if_splits) linarith+
qed


lemma GetZones_hit:
  "\<not> zonesNext c < now \<Longrightarrow>
   GetZones c s w now updateTime =
     ((zones c, zonesErr c), [AddGenericRequests M_CACHED_GETZONES 1], c, s, w)"
  by (simp add: GetZones_def Time_After_def)

lemma GetZones_refresh:
  assumes "zonesNext c < now"
  shows "GetZones c s w now updateTime =
     (fst (zonesUpdater c w), [],
      (if snd (fst (zonesUpdater c w)) \<noteq> None
       then (snd (nextBackoff c))
              \<lparr>zones := fst (fst (zonesUpdater c w)), zonesErr := snd (fst (zonesUpdater c w)),
               zonesNext := updateTime + fst (nextBackoff c)\<rparr>
       else c\<lparr>zones := fst (fst (zonesUpdater c w)), zonesErr := snd (fst (zonesUpdater c w)),
              zonesNext := updateTime + zonesTTL c, backoffOnError := 0\<rparr>),
      UpdateUsedZones s (ident c) (toSortedZoneIDs (fst (fst (zonesUpdater c w)))),
      snd (zonesUpdater c w))"
  using assms
  by (simp add: GetZones_def Time_After_def Time_Add_def case_prod_unfold Let_def
        nextBackoff_def clearBackoff_def prod_eq_iff)

lemmas ApplyRequests_defs = ApplyRequests_def ExecuteRequests_def InMemory_Apply_def
  invalidated_def

lemma ExecuteRequests_loop_hosted:
  assumes "InMemory_find m zoneID = Some (hz, state)"
  shows "fst (ExecuteRequests_loop change zoneID reqs m) = fst (changesInOrder change reqs state) \<and>
         (\<forall>z. InMemory_find (snd (ExecuteRequests_loop change zoneID reqs m)) z =
              (if z = zoneID then Some (hz, snd (changesInOrder change reqs state))
               else InMemory_find m z))"
  using assms
proof (induction reqs arbitrary: m state)
  case Nil
  then show ?case by simp
next
  case (Cons req reqs)
  have id: "ZoneId hz = zoneID"
    using find_Some_id [OF Cons.prems] by simp
  show ?case
  proof (cases "change req state")
    case (Inl err)
    then show ?thesis
      using Cons.prems by (simp add: InMemory_Apply_def)
  next
    case (Inr state')
    let ?m = "InMemory_SetZone hz state' m"
    have found: "InMemory_find ?m zoneID = Some (hz, state')"
      by (simp add: find_SetZone id)
    have step: "ExecuteRequests_loop change zoneID (req # reqs) m =
                ExecuteRequests_loop change zoneID reqs ?m"
      using Cons.prems Inr by (simp add: InMemory_Apply_def)
    show ?thesis
      unfolding step using Cons.IH [OF found] Inr
      by (simp add: find_SetZone id)
  qed
qed

lemma ExecuteRequests_loop_not_hosted:
  assumes "InMemory_find m zoneID = None"
  shows "ExecuteRequests_loop change zoneID reqs m =
           ((if reqs = [] then None else Some (NotHosted zoneID)), m)"
  using assms by (cases reqs) (simp_all add: InMemory_Apply_def)

lemma ExecuteRequests_unfold:
  "ExecuteRequests change s zoneID reqs =
     (let l = ExecuteRequests_loop change zoneID reqs (inMemory s);
          s2 = (snd (getProxy s zoneID))\<lparr>inMemory := snd l\<rparr>
      in if fst l \<noteq> None then cleanZoneState s2 zoneID (Some zoneID) else s2)"
  by (simp add: ExecuteRequests_def case_prod_unfold getProxy_fields Let_def)

lemma ExecuteRequests_failed:
  assumes "fst (ExecuteRequests_loop change zoneID reqs (inMemory s)) \<noteq> None"
  shows "invalidated (ExecuteRequests change s zoneID reqs) zoneID"
  using assms
  by (simp add: ExecuteRequests_unfold Let_def invalidated_def cleanZoneState_inMemory
        find_DeleteZone cleanZoneState_forwardedDomains cleanZoneState_proxies_Some
        getProxy_proxies)

lemma ExecuteRequests_succeeded:
  assumes "fst (ExecuteRequests_loop change zoneID reqs (inMemory s)) = None"
  shows "inMemory (ExecuteRequests change s zoneID reqs) =
           snd (ExecuteRequests_loop change zoneID reqs (inMemory s))"
    and "forwardedDomainsCache (ExecuteRequests change s zoneID reqs) = forwardedDomainsCache s"
    and "usedZones (ExecuteRequests change s zoneID reqs) = usedZones s"
    and "proxyTimes (ExecuteRequests change s zoneID reqs) z = proxyTimes s z"
  using assms
  by (simp_all add: ExecuteRequests_unfold Let_def getProxy_fields proxyTimes_def
        getProxy_proxies split: option.splits)

lemmas UpdateUsedZones_defs = UpdateUsedZones_def collectUnused_def allUsedZones_def
  cleanUnusedZones_def deleteUnusedProxies_def InMemory_GetZones_def Release_def
  retainedZones_def recordedZones_def newZoneStates_def NewInMemory_def
  newForwardedDomainsCacheImpl_def fd_Set_def zoneStates_ReportZoneStateConflict_def
  stateA_forwarded_def stateAB_def stateAB_released_def stateA_released_def

lemma fold_usage:
  "fold (\<lambda>entry allUsed. fold insert (snd entry) allUsed) used A =
     A \<union> (\<Union>entry \<in> set used. set (snd entry))"
proof (induction used arbitrary: A)
  case Nil
  then show ?case by simp
next
  case (Cons e used)
  have "fold insert (snd e) A = set (snd e) \<union> A"
    by (simp add: List.union_set_fold)
  then show ?case
    by (auto simp: Cons.IH)
qed

lemma allUsedZones_retained: "allUsedZones (usedZones s) = retainedZones s"
  by (simp add: allUsedZones_def retainedZones_def fold_usage)

lemma retainedZones_ran:
  "distinct (map fst (usedZones s)) \<Longrightarrow>
   retainedZones s = (\<Union>ids \<in> ran (map_of (usedZones s)). set ids)"
  by (simp add: retainedZones_def ran_distinct)

lemma cleanUnusedZones_fields:
  "proxies (cleanUnusedZones U zs s) = proxies s"
  "usedZones (cleanUnusedZones U zs s) = usedZones s"
  "stateTTLGetter (cleanUnusedZones U zs s) = stateTTLGetter s"
  unfolding cleanUnusedZones_def
  by (induction zs arbitrary: s)
     (simp_all add: cleanZoneState_proxies_None cleanZoneState_usedZones
        cleanZoneState_stateTTLGetter)

lemma cleanUnusedZones_inMemory:
  "InMemory_find (inMemory (cleanUnusedZones U zs s)) z =
     (if z \<notin> U \<and> z \<in> ZoneId ` set zs then None else InMemory_find (inMemory s) z)"
  unfolding cleanUnusedZones_def
  by (induction zs arbitrary: s) (auto simp: cleanZoneState_inMemory find_DeleteZone)

lemma cleanUnusedZones_forwardedDomains:
  "forwardedDomains (cleanUnusedZones U zs s) z =
     (if z \<notin> U \<and> z \<in> ZoneId ` set zs then None else forwardedDomains s z)"
  unfolding cleanUnusedZones_def
  by (induction zs arbitrary: s) (auto simp: cleanZoneState_forwardedDomains)

lemma deleteUnusedProxies_fields:
  "inMemory (deleteUnusedProxies U ids s) = inMemory s"
  "forwardedDomainsCache (deleteUnusedProxies U ids s) = forwardedDomainsCache s"
  "usedZones (deleteUnusedProxies U ids s) = usedZones s"
  "stateTTLGetter (deleteUnusedProxies U ids s) = stateTTLGetter s"
  unfolding deleteUnusedProxies_def
  by (induction ids arbitrary: s) simp_all

lemma deleteUnusedProxies_proxies:
  "map_of (proxies (deleteUnusedProxies U ids s)) z =
     (if z \<notin> U \<and> z \<in> set ids then None else map_of (proxies s) z)"
  unfolding deleteUnusedProxies_def
  by (induction ids arbitrary: s) (auto simp: delete_conv')

lemma collectUnused_usedZones: "usedZones (collectUnused s) = usedZones s"
  by (simp add: collectUnused_def Let_def deleteUnusedProxies_fields cleanUnusedZones_fields)

lemma collectUnused_inMemory:
  "InMemory_find (inMemory (collectUnused s)) z =
     (if z \<in> retainedZones s then InMemory_find (inMemory s) z else None)"
  by (auto simp: collectUnused_def Let_def deleteUnusedProxies_fields cleanUnusedZones_inMemory
        allUsedZones_retained InMemory_GetZones_def find_None_iff image_image)

lemma collectUnused_forwardedDomains:
  "forwardedDomains (collectUnused s) z =
     (if z \<notin> retainedZones s \<and> InMemory_find (inMemory s) z \<noteq> None then None
      else forwardedDomains s z)"
proof -
  have "forwardedDomains (collectUnused s) z =
        forwardedDomains (cleanUnusedZones (retainedZones s) (InMemory_GetZones (inMemory s)) s) z"
    by (simp add: collectUnused_def Let_def forwardedDomains_def deleteUnusedProxies_fields
          allUsedZones_retained)
  then show ?thesis
    by (auto simp: cleanUnusedZones_forwardedDomains InMemory_GetZones_def find_None_iff
          image_image)
qed

lemma collectUnused_proxies:
  "map_of (proxies (collectUnused s)) z =
     (if z \<in> retainedZones s then map_of (proxies s) z else None)"
  by (auto simp: collectUnused_def Let_def deleteUnusedProxies_proxies cleanUnusedZones_fields
        allUsedZones_retained map_of_eq_None_iff)

lemma UpdateUsedZones_same: "recordedZones s cache = zoneids \<Longrightarrow> UpdateUsedZones s cache zoneids = s"
  by (auto simp: UpdateUsedZones_def recordedZones_def Let_def)

lemma UpdateUsedZones_changed:
  "recordedZones s cache \<noteq> zoneids \<Longrightarrow>
   UpdateUsedZones s cache zoneids =
     collectUnused (s\<lparr>usedZones := (if zoneids = [] then AList.delete cache (usedZones s)
                                     else AList.update cache zoneids (usedZones s))\<rparr>)"
  by (auto simp: UpdateUsedZones_def recordedZones_def Let_def)

section \<open>Claims\<close>


text \<open>
  Claim C1.  \<open>zoneStates.GetZoneState\<close>, called at time \<open>start\<close>: when \<open>start\<close> is not
  after \<open>lastUpdateEnd + TTL(zoneID)\<close> the call reports \<open>wasCached = true\<close>, runs no
  callback (the provider world is unchanged), leaves the record store and every proxy
  timestamp as they were and, the store holding a snapshot of the zone, returns the clone
  of that snapshot without an error.  When \<open>start\<close> is after \<open>lastUpdateEnd + TTL(zoneID)\<close>
  and the state updater returns a snapshot, the call returns this very snapshot, not a
  clone, with \<open>wasCached = false\<close>; the record store then holds the snapshot for the zone,
  \<open>lastUpdateStart\<close> is \<open>start\<close>, the time read before the callback, and
  \<open>lastUpdateEnd\<close> is \<open>finish\<close>, the time read after it.
\<close>

theorem GetZoneState_hit_or_refresh:
  assumes "zoneStates_GetZoneState clone s zone cache w start finish = ((state, wasCached, err), s', w')"
  shows "(\<not> lastUpdateEnd (proxyTimes s (ZoneId zone)) + stateTTLGetter s (ZoneId zone) < start \<longrightarrow>
            wasCached \<and> w' = w \<and> inMemory s' = inMemory s \<and>
            (\<forall>z. proxyTimes s' z = proxyTimes s z) \<and>
            (\<forall>e. InMemory_find (inMemory s) (ZoneId zone) = Some e \<longrightarrow>
                  state = Some (clone (snd e)) \<and> err = None)) \<and>
         (lastUpdateEnd (proxyTimes s (ZoneId zone)) + stateTTLGetter s (ZoneId zone) < start \<longrightarrow>
            (\<forall>fresh w1. stateUpdater cache zone w = (Inr fresh, w1) \<longrightarrow>
               state = Some fresh \<and> \<not> wasCached \<and> err = None \<and> w' = w1 \<and>
               InMemory_find (inMemory s') (ZoneId zone) = Some (zone, fresh) \<and>
               map_of (proxies s') (ZoneId zone) =
                 Some \<lparr>lastUpdateStart = start, lastUpdateEnd = finish\<rparr>))"
proof (intro conjI impI allI)
  assume hit: "\<not> lastUpdateEnd (proxyTimes s (ZoneId zone)) + stateTTLGetter s (ZoneId zone) < start"
  then have eq: "((state, wasCached, err), s', w') =
      (case InMemory_CloneZoneState clone zone (inMemory s) of
         Inl e \<Rightarrow> ((None, True, Some e), snd (getProxy s (ZoneId zone)), w)
       | Inr st \<Rightarrow> ((Some st, True, None), snd (getProxy s (ZoneId zone)), w))"
    using assms
    by (simp add: zoneStates_GetZoneState_def case_prod_unfold getProxy_fst getProxy_fields
          Time_After_def Time_Add_def Let_def)
  then have s': "s' = snd (getProxy s (ZoneId zone))" and "wasCached" and "w' = w"
    by (auto split: sum.splits)
  show "wasCached" by fact
  show "w' = w" by fact
  show "inMemory s' = inMemory s" by (simp add: s' getProxy_fields)
  show "proxyTimes s' z = proxyTimes s z" for z by (simp add: s' getProxy_proxyTimes)
  show "state = Some (clone (snd e))" "err = None"
    if "InMemory_find (inMemory s) (ZoneId zone) = Some e" for e
    using eq that by (simp_all add: InMemory_CloneZoneState_def)
next
  fix fresh w1
  assume exp: "lastUpdateEnd (proxyTimes s (ZoneId zone)) + stateTTLGetter s (ZoneId zone) < start"
    and upd: "stateUpdater cache zone w = (Inr fresh, w1)"
  have eq: "((state, wasCached, err), s', w') =
      ((Some fresh, False, None),
       (snd (getProxy s (ZoneId zone)))
         \<lparr>proxies := AList.map_entry (ZoneId zone)
            (\<lambda>x. x\<lparr>lastUpdateStart := start, lastUpdateEnd := finish\<rparr>)
            (proxies (snd (getProxy s (ZoneId zone)))),
          inMemory := InMemory_SetZone zone fresh (inMemory s)\<rparr>, w1)"
    using assms exp upd
    by (simp add: zoneStates_GetZoneState_def case_prod_unfold getProxy_fst getProxy_fields
          Time_After_def Time_Add_def Let_def)
  show "state = Some fresh" "\<not> wasCached" "err = None" "w' = w1"
    using eq by simp_all
  show "InMemory_find (inMemory s') (ZoneId zone) = Some (zone, fresh)"
    using eq by (simp add: find_SetZone)
  show "map_of (proxies s') (ZoneId zone) = Some \<lparr>lastUpdateStart = start, lastUpdateEnd = finish\<rparr>"
    using eq by (simp add: proxies_write)
qed

theorem GetZoneState_hit_or_refresh_witness:
  "zoneStates_GetZoneState rev stateA zoneA cacheOK 0 (50 * Second) (51 * Second) =
       ((Some [2, 1], True, None), stateA, 0) \<and>
   \<not> lastUpdateEnd (proxyTimes stateA (ZoneId zoneA)) + stateTTLGetter stateA (ZoneId zoneA)
       < 50 * Second \<and>
   InMemory_find (inMemory stateA) (ZoneId zoneA) = Some (zoneA, [1, 2]) \<and>
   zoneStates_GetZoneState rev stateA zoneA cacheOK 0 (80 * Second) (81 * Second) =
       ((Some [7, 8], False, None),
        stateA\<lparr>inMemory := [(zoneA, [7, 8])],
               proxies := [(zidA, \<lparr>lastUpdateStart = 80 * Second, lastUpdateEnd = 81 * Second\<rparr>)]\<rparr>, 1) \<and>
   lastUpdateEnd (proxyTimes stateA (ZoneId zoneA)) + stateTTLGetter stateA (ZoneId zoneA)
       < 80 * Second \<and>
   stateUpdater cacheOK zoneA 0 = (Inr [7, 8], 1)"
proof -
  have hit: "zoneStates_GetZoneState rev stateA zoneA cacheOK 0 (50 * Second) (51 * Second) =
       ((Some [2, 1], True, None), stateA, 0)"
    by (simp add: model_defs fixture_defs)
  have refresh: "zoneStates_GetZoneState rev stateA zoneA cacheOK 0 (80 * Second) (81 * Second) =
       ((Some [7, 8], False, None),
        stateA\<lparr>inMemory := [(zoneA, [7, 8])],
               proxies := [(zidA, \<lparr>lastUpdateStart = 80 * Second, lastUpdateEnd = 81 * Second\<rparr>)]\<rparr>, 1)"
    by (simp add: model_defs fixture_defs)
  have facts: "\<not> lastUpdateEnd (proxyTimes stateA (ZoneId zoneA)) + stateTTLGetter stateA (ZoneId zoneA)
       < 50 * Second"
    "InMemory_find (inMemory stateA) (ZoneId zoneA) = Some (zoneA, [1, 2])"
    "lastUpdateEnd (proxyTimes stateA (ZoneId zoneA)) + stateTTLGetter stateA (ZoneId zoneA)
       < 80 * Second"
    "stateUpdater cacheOK zoneA 0 = (Inr [7, 8], 1)"
    by (simp_all add: model_defs fixture_defs)
  show ?thesis
    using GetZoneState_hit_or_refresh [OF hit] GetZoneState_hit_or_refresh [OF refresh]
      hit refresh facts
    by simp
qed

text \<open>
  Claim C2.  \<open>ApplyRequests\<close> with no prior write error.  When the record store holds a
  snapshot of the zone, the loop of \<open>ExecuteRequests\<close> applies the requests to it in the
  given order and stops at the first failing apply: it returns the first error, if any,
  and has applied exactly the requests before it.  When every apply succeeds the stored
  snapshot is the old one with all requests applied in order, and the forwarded domains
  and the timestamps of every zone are unchanged.  When an apply fails the zone is
  invalidated: no record-store entry, no forwarded-domains entry, proxy timestamps zero.
  The same holds when the store has no snapshot of the zone and there is at least one
  request, since the first apply then fails.
\<close>

theorem ApplyRequests_write_through:
  assumes run: "ApplyRequests change s None zone reqs = (evs, s')"
  shows "(\<forall>hz state. InMemory_find (inMemory s) (ZoneId zone) = Some (hz, state) \<longrightarrow>
            fst (ExecuteRequests_loop change (ZoneId zone) reqs (inMemory s)) =
              fst (changesInOrder change reqs state) \<and>
            InMemory_find (snd (ExecuteRequests_loop change (ZoneId zone) reqs (inMemory s)))
              (ZoneId zone) = Some (hz, snd (changesInOrder change reqs state)) \<and>
            (fst (changesInOrder change reqs state) = None \<longrightarrow>
               InMemory_find (inMemory s') (ZoneId zone) =
                 Some (hz, snd (changesInOrder change reqs state)) \<and>
               forwardedDomainsCache s' = forwardedDomainsCache s \<and>
               (\<forall>z. proxyTimes s' z = proxyTimes s z)) \<and>
            (fst (changesInOrder change reqs state) \<noteq> None \<longrightarrow> invalidated s' (ZoneId zone))) \<and>
         (InMemory_find (inMemory s) (ZoneId zone) = None \<longrightarrow> reqs \<noteq> [] \<longrightarrow>
            invalidated s' (ZoneId zone))"
proof -
  let ?z = "ZoneId zone"
  have s': "s' = ExecuteRequests change s ?z reqs"
    using run by (simp add: ApplyRequests_def)
  show ?thesis
  proof (intro conjI allI impI)
    fix hz state
    assume found: "InMemory_find (inMemory s) ?z = Some (hz, state)"
    note loop = ExecuteRequests_loop_hosted [OF found, of change reqs]
    show "fst (ExecuteRequests_loop change ?z reqs (inMemory s)) =
            fst (changesInOrder change reqs state)"
      using loop by simp
    show "InMemory_find (snd (ExecuteRequests_loop change ?z reqs (inMemory s))) ?z =
            Some (hz, snd (changesInOrder change reqs state))"
      using loop by simp
    {
      assume ok: "fst (changesInOrder change reqs state) = None"
      then have none: "fst (ExecuteRequests_loop change ?z reqs (inMemory s)) = None"
        using loop by simp
      show "InMemory_find (inMemory s') ?z = Some (hz, snd (changesInOrder change reqs state))"
        using loop by (simp add: s' ExecuteRequests_succeeded [OF none])
      show "forwardedDomainsCache s' = forwardedDomainsCache s"
        by (simp add: s' ExecuteRequests_succeeded [OF none])
      show "proxyTimes s' z = proxyTimes s z" for z
        by (simp add: s' ExecuteRequests_succeeded [OF none])
    }
    {
      assume "fst (changesInOrder change reqs state) \<noteq> None"
      then have "fst (ExecuteRequests_loop change ?z reqs (inMemory s)) \<noteq> None"
        using loop by simp
      then show "invalidated s' ?z"
        unfolding s' by (rule ExecuteRequests_failed)
    }
  next
    assume "InMemory_find (inMemory s) ?z = None" and "reqs \<noteq> []"
    then have "fst (ExecuteRequests_loop change ?z reqs (inMemory s)) \<noteq> None"
      by (simp add: ExecuteRequests_loop_not_hosted)
    then show "invalidated s' ?z"
      unfolding s' by (rule ExecuteRequests_failed)
  qed
qed

theorem ApplyRequests_write_through_witness:
  "ApplyRequests appendChange stateA None zoneA [3, 4] =
     ([], stateA\<lparr>inMemory := [(zoneA, [1, 2, 3, 4])]\<rparr>) \<and>
   InMemory_find (inMemory stateA) (ZoneId zoneA) = Some (zoneA, [1, 2]) \<and>
   changesInOrder appendChange [3, 4] [1, 2] = (None, [1, 2, 3, 4]) \<and>
   ApplyRequests appendChange stateA None zoneA [3, 0, 4] = ([], stateA_cleaned) \<and>
   changesInOrder appendChange [3, 0, 4] [1, 2] = (Some (OtherError ''rejected''), [1, 2, 3]) \<and>
   invalidated stateA_cleaned (ZoneId zoneA) \<and>
   InMemory_find (inMemory stateA) (ZoneId zoneB) = None \<and>
   invalidated (snd (ApplyRequests appendChange stateA None zoneB [3])) (ZoneId zoneB)"
proof -
  have good: "ApplyRequests appendChange stateA None zoneA [3, 4] =
     ([], stateA\<lparr>inMemory := [(zoneA, [1, 2, 3, 4])]\<rparr>)"
    by (simp add: ApplyRequests_defs model_defs fixture_defs)
  have bad: "ApplyRequests appendChange stateA None zoneA [3, 0, 4] = ([], stateA_cleaned)"
    by (simp add: ApplyRequests_defs model_defs fixture_defs)
  have found: "InMemory_find (inMemory stateA) (ZoneId zoneA) = Some (zoneA, [1, 2])"
    and missing: "InMemory_find (inMemory stateA) (ZoneId zoneB) = None"
    by (simp_all add: model_defs fixture_defs)
  have spec: "changesInOrder appendChange [3, 4] [1, 2] = (None, [1, 2, 3, 4])"
    "changesInOrder appendChange [3, 0, 4] [1, 2] = (Some (OtherError ''rejected''), [1, 2, 3])"
    by (simp_all add: appendChange_def)
  note a = ApplyRequests_write_through [OF good]
  note b = ApplyRequests_write_through [OF bad]
  note c = ApplyRequests_write_through [where change = appendChange and s = stateA
             and zone = zoneB and reqs = "[3]", OF surjective_pairing]
  from b found spec have inv: "invalidated stateA_cleaned (ZoneId zoneA)"
    by simp
  from c missing
  have inv': "invalidated (snd (ApplyRequests appendChange stateA None zoneB [3])) (ZoneId zoneB)"
    by simp
  show ?thesis
    using a good bad found missing spec inv inv' by simp
qed

text \<open>
  Claim C3.  \<open>ReportZoneStateConflict\<close> of the full-caching cache returns true exactly
  when the zone's \<open>lastUpdateStart\<close> is not the zero time, the error is an ownership
  conflict and its entry-created-at time is strictly after \<open>lastUpdateStart\<close>.  When it
  returns true the zone is invalidated: no record-store entry, no forwarded-domains entry,
  both proxy timestamps zero.  When it returns false the record store, the
  forwarded-domains cache, the usage sets and the timestamps of every zone are as before.
\<close>

theorem ReportZoneStateConflict_iff:
  assumes run: "defaultZoneCache_ReportZoneStateConflict s zone err = (r, s')"
  shows "(r \<longleftrightarrow> lastUpdateStart (proxyTimes s (ZoneId zone)) \<noteq> 0 \<and>
               (\<exists>created. err = Some (AlreadyBusyForOwner created) \<and>
                          lastUpdateStart (proxyTimes s (ZoneId zone)) < created)) \<and>
         (r \<longrightarrow> InMemory_find (inMemory s') (ZoneId zone) = None \<and>
               forwardedDomains s' (ZoneId zone) = None \<and>
               map_of (proxies s') (ZoneId zone) = Some zeroProxy) \<and>
         (\<not> r \<longrightarrow> inMemory s' = inMemory s \<and>
               forwardedDomainsCache s' = forwardedDomainsCache s \<and>
               usedZones s' = usedZones s \<and>
               (\<forall>z. proxyTimes s' z = proxyTimes s z))"
proof -
  let ?z = "ZoneId zone"
  let ?c = "lastUpdateStart (proxyTimes s ?z) \<noteq> 0 \<and>
            (\<exists>created. err = Some (AlreadyBusyForOwner created) \<and>
                       lastUpdateStart (proxyTimes s ?z) < created)"
  have eq: "(r, s') =
      (if ?c then (True, cleanZoneState (snd (getProxy s ?z)) ?z (Some ?z))
       else (False, snd (getProxy s ?z)))"
    using run
    by (auto simp: defaultZoneCache_ReportZoneStateConflict_def
          zoneStates_ReportZoneStateConflict_def case_prod_unfold getProxy_fst
          Time_After_def Time_IsZero_def Let_def split: option.splits error.splits if_splits)
  show ?thesis
  proof (cases ?c)
    case True
    with eq have "r" and s': "s' = cleanZoneState (snd (getProxy s ?z)) ?z (Some ?z)"
      by simp_all
    then show ?thesis
      using True
      by (simp add: cleanZoneState_inMemory find_DeleteZone cleanZoneState_forwardedDomains
            clean_after_getProxy)
  next
    case False
    with eq have "\<not> r" and s': "s' = snd (getProxy s ?z)"
      by simp_all
    then show ?thesis
      using False by (simp add: getProxy_fields getProxy_proxyTimes)
  qed
qed

theorem ReportZoneStateConflict_iff_witness:
  "defaultZoneCache_ReportZoneStateConflict stateA zoneA (Some (AlreadyBusyForOwner (20 * Second))) =
       (True, stateA_cleaned) \<and>
   lastUpdateStart (proxyTimes stateA (ZoneId zoneA)) = 10 * Second \<and>
   InMemory_find (inMemory stateA_cleaned) (ZoneId zoneA) = None \<and>
   forwardedDomains stateA_cleaned (ZoneId zoneA) = None \<and>
   map_of (proxies stateA_cleaned) (ZoneId zoneA) = Some zeroProxy \<and>
   defaultZoneCache_ReportZoneStateConflict stateA zoneA (Some (AlreadyBusyForOwner (10 * Second))) =
       (False, stateA) \<and>
   defaultZoneCache_ReportZoneStateConflict stateA zoneA (Some (OtherError ''busy'')) =
       (False, stateA)"
proof -
  have newer: "defaultZoneCache_ReportZoneStateConflict stateA zoneA
       (Some (AlreadyBusyForOwner (20 * Second))) = (True, stateA_cleaned)"
    by (simp add: more_defs model_defs fixture_defs)
  have older: "defaultZoneCache_ReportZoneStateConflict stateA zoneA
       (Some (AlreadyBusyForOwner (10 * Second))) = (False, stateA)"
    by (simp add: more_defs model_defs fixture_defs)
  have other: "defaultZoneCache_ReportZoneStateConflict stateA zoneA
       (Some (OtherError ''busy'')) = (False, stateA)"
    by (simp add: more_defs model_defs fixture_defs)
  have start: "lastUpdateStart (proxyTimes stateA (ZoneId zoneA)) = 10 * Second"
    by (simp add: model_defs fixture_defs)
  show ?thesis
    using ReportZoneStateConflict_iff [OF newer] ReportZoneStateConflict_iff [OF older]
      newer older other start
    by simp
qed

text \<open>
  Claim C4, amended.  \<open>UpdateUsedZones\<close>: when the new list equals, element by element,
  the list recorded for the consumer (both empty included) the manager is unchanged.
  Otherwise, also when the two lists differ only in order or in repetitions, the
  consumer's record becomes the new list, or is deleted from the usage map when the new
  list is empty, and the records of the other consumers stay; with the union taken over the records after the call, every zone
  outside the union has no record-store entry and no proxy afterwards, and its
  forwarded-domains entry is removed when the record store held a snapshot of the zone
  and is left as it was otherwise; every zone in the union keeps its record-store entry,
  its proxy and its forwarded-domains entry.
\<close>

theorem UpdateUsedZones_collects:
  assumes run: "UpdateUsedZones s cache zoneids = s'"
  shows "(recordedZones s cache = zoneids \<longrightarrow> s' = s) \<and>
         (recordedZones s cache \<noteq> zoneids \<longrightarrow>
            recordedZones s' cache = zoneids \<and>
            map_of (usedZones s') cache = (if zoneids = [] then None else Some zoneids) \<and>
            (\<forall>other. other \<noteq> cache \<longrightarrow>
               map_of (usedZones s') other = map_of (usedZones s) other) \<and>
            (\<forall>z. z \<notin> retainedZones s' \<longrightarrow>
               InMemory_find (inMemory s') z = None \<and> map_of (proxies s') z = None \<and>
               (InMemory_find (inMemory s) z \<noteq> None \<longrightarrow> forwardedDomains s' z = None) \<and>
               (InMemory_find (inMemory s) z = None \<longrightarrow>
                  forwardedDomains s' z = forwardedDomains s z)) \<and>
            (\<forall>z. z \<in> retainedZones s' \<longrightarrow>
               InMemory_find (inMemory s') z = InMemory_find (inMemory s) z \<and>
               map_of (proxies s') z = map_of (proxies s) z \<and>
               forwardedDomains s' z = forwardedDomains s z))"
proof (intro conjI impI)
  assume "recordedZones s cache = zoneids"
  then show "s' = s" using run by (simp add: UpdateUsedZones_same)
next
  assume changed: "recordedZones s cache \<noteq> zoneids"
  let ?s1 = "s\<lparr>usedZones := (if zoneids = [] then AList.delete cache (usedZones s)
                                else AList.update cache zoneids (usedZones s))\<rparr>"
  have s': "s' = collectUnused ?s1"
    using run UpdateUsedZones_changed [OF changed] by simp
  have used: "usedZones s' = usedZones ?s1"
    by (simp add: s' collectUnused_usedZones)
  have ret: "retainedZones s' = retainedZones ?s1"
    by (simp add: retainedZones_def used)
  show "recordedZones s' cache = zoneids"
    by (simp add: recordedZones_def used delete_conv' update_conv')
  show "map_of (usedZones s') cache = (if zoneids = [] then None else Some zoneids)"
    by (simp add: used delete_conv' update_conv')
  show "\<forall>other. other \<noteq> cache \<longrightarrow> map_of (usedZones s') other = map_of (usedZones s) other"
    by (simp add: used delete_conv' update_conv')
  show "\<forall>z. z \<notin> retainedZones s' \<longrightarrow>
          InMemory_find (inMemory s') z = None \<and> map_of (proxies s') z = None \<and>
          (InMemory_find (inMemory s) z \<noteq> None \<longrightarrow> forwardedDomains s' z = None) \<and>
          (InMemory_find (inMemory s) z = None \<longrightarrow> forwardedDomains s' z = forwardedDomains s z)"
    unfolding ret
    by (simp add: s' collectUnused_inMemory collectUnused_proxies collectUnused_forwardedDomains)
       (simp add: forwardedDomains_def)
  show "\<forall>z. z \<in> retainedZones s' \<longrightarrow>
          InMemory_find (inMemory s') z = InMemory_find (inMemory s) z \<and>
          map_of (proxies s') z = map_of (proxies s) z \<and>
          forwardedDomains s' z = forwardedDomains s z"
    unfolding ret
    by (simp add: s' collectUnused_inMemory collectUnused_proxies collectUnused_forwardedDomains)
       (simp add: forwardedDomains_def)
qed

theorem UpdateUsedZones_collects_witness:
  "UpdateUsedZones stateAB 2 [zidB] = stateAB \<and> recordedZones stateAB 2 = [zidB] \<and>
   UpdateUsedZones stateAB 1 [] = stateAB_released \<and> recordedZones stateAB 1 \<noteq> [] \<and>
   map_of (usedZones stateAB_released) 1 = None \<and>
   map_of (usedZones stateAB_released) 2 = map_of (usedZones stateAB) 2 \<and>
   zidA \<notin> retainedZones stateAB_released \<and> zidB \<in> retainedZones stateAB_released \<and>
   InMemory_find (inMemory stateAB) zidA \<noteq> None \<and>
   InMemory_find (inMemory stateAB_released) zidA = None \<and>
   map_of (proxies stateAB_released) zidA = None \<and>
   forwardedDomains stateAB_released zidA = None \<and>
   InMemory_find (inMemory stateAB_released) zidB = InMemory_find (inMemory stateAB) zidB \<and>
   map_of (proxies stateAB_released) zidB = map_of (proxies stateAB) zidB \<and>
   forwardedDomains stateAB_released zidB = forwardedDomains stateAB zidB"
proof -
  have same: "UpdateUsedZones stateAB 2 [zidB] = stateAB"
    by (simp add: UpdateUsedZones_defs)
  have release: "UpdateUsedZones stateAB 1 [] = stateAB_released"
    by (simp add: UpdateUsedZones_defs model_defs fixture_defs)
  have facts: "recordedZones stateAB 2 = [zidB]" "recordedZones stateAB 1 \<noteq> []"
    "zidA \<notin> retainedZones stateAB_released" "zidB \<in> retainedZones stateAB_released"
    "InMemory_find (inMemory stateAB) zidA \<noteq> None"
    by (simp_all add: UpdateUsedZones_defs model_defs fixture_defs)
  note a = UpdateUsedZones_collects [OF same]
  note b = UpdateUsedZones_collects [OF release]
  from b facts have records: "map_of (usedZones stateAB_released) 1 = None"
    "map_of (usedZones stateAB_released) 2 = map_of (usedZones stateAB) 2"
    by simp_all
  from b facts have gone: "InMemory_find (inMemory stateAB_released) zidA = None"
    "map_of (proxies stateAB_released) zidA = None"
    "forwardedDomains stateAB_released zidA = None"
    by blast+
  from b facts have kept:
    "InMemory_find (inMemory stateAB_released) zidB = InMemory_find (inMemory stateAB) zidB"
    "map_of (proxies stateAB_released) zidB = map_of (proxies stateAB) zidB"
    "forwardedDomains stateAB_released zidB = forwardedDomains stateAB zidB"
    by blast+
  show ?thesis
    using a same release facts records gone kept by simp
qed

text \<open>
  Claim C4 as stated fails in two places.  It promises the removal of the
  forwarded-domains entry of a zone that is only in the proxy registry: the sweep of
  \<open>UpdateUsedZones\<close> cleans the zones of the record store and deletes the unused proxies,
  so a zone with a proxy and forwarded domains but no snapshot keeps its forwarded domains
  when it leaves the union (\<open>stateA_forwarded\<close>).  And it promises a no-op whenever the
  new set equals the recorded set: the source compares the lists, so a report of the same
  zones with a repetition (what \<open>toSortedZoneIDs\<close> yields for a listing that names a zone
  twice) or in another order is not a no-op; it rewrites the record and runs the sweep,
  which here removes the snapshot of a zone that no consumer reported
  (\<open>stateC_unreported\<close>).
\<close>

theorem UpdateUsedZones_collects_counterexample:
  "map_of (proxies stateA_forwarded) zidA = Some zeroProxy \<and>
   InMemory_find (inMemory stateA_forwarded) zidA = None \<and>
   forwardedDomains stateA_forwarded zidA = Some [''sub.a.example.com''] \<and>
   recordedZones stateA_forwarded 1 = [zidA] \<and>
   zidA \<notin> retainedZones (UpdateUsedZones stateA_forwarded 1 []) \<and>
   map_of (proxies (UpdateUsedZones stateA_forwarded 1 [])) zidA = None \<and>
   forwardedDomains (UpdateUsedZones stateA_forwarded 1 []) zidA = Some [''sub.a.example.com''] \<and>
   recordedZones stateC_unreported 1 = [zidA, zidB] \<and>
   toSortedZoneIDs [zoneA, zoneB, zoneA] = [zidA, zidA, zidB] \<and>
   set [zidA, zidA, zidB] = set (recordedZones stateC_unreported 1) \<and>
   set [zidB, zidA] = set (recordedZones stateC_unreported 1) \<and>
   InMemory_find (inMemory stateC_unreported) zidC = Some (zoneC, [7, 8]) \<and>
   InMemory_find (inMemory (UpdateUsedZones stateC_unreported 1 [zidA, zidA, zidB])) zidC = None \<and>
   InMemory_find (inMemory (UpdateUsedZones stateC_unreported 1 [zidB, zidA])) zidC = None \<and>
   UpdateUsedZones stateC_unreported 1 [zidA, zidA, zidB] \<noteq> stateC_unreported \<and>
   UpdateUsedZones stateC_unreported 1 [zidB, zidA] \<noteq> stateC_unreported"
proof -
  have forwarded:
    "map_of (proxies stateA_forwarded) zidA = Some zeroProxy"
    "InMemory_find (inMemory stateA_forwarded) zidA = None"
    "forwardedDomains stateA_forwarded zidA = Some [''sub.a.example.com'']"
    "recordedZones stateA_forwarded 1 = [zidA]"
    "zidA \<notin> retainedZones (UpdateUsedZones stateA_forwarded 1 [])"
    "map_of (proxies (UpdateUsedZones stateA_forwarded 1 [])) zidA = None"
    "forwardedDomains (UpdateUsedZones stateA_forwarded 1 []) zidA = Some [''sub.a.example.com'']"
    by (simp_all add: UpdateUsedZones_defs model_defs fixture_defs)
  have state: "stateC_unreported =
      \<lparr>stateTTLGetter = ttl60, inMemory = [(zoneC, [7, 8])],
       proxies = [(zidC, \<lparr>lastUpdateStart = 80 * Second, lastUpdateEnd = 81 * Second\<rparr>)],
       usedZones = [(1, [zidA, zidB])], forwardedDomainsCache = Some []\<rparr>"
    by (simp add: stateC_unreported_def UpdateUsedZones_defs model_defs fixture_defs
          zidC_def zoneC_def)
  have sorted: "toSortedZoneIDs [zoneA, zoneB, zoneA] = [zidA, zidA, zidB]"
    by (simp add: toSortedZoneIDs_def zoneid_less_def fixture_defs)
  have before: "recordedZones stateC_unreported 1 = [zidA, zidB]"
    "InMemory_find (inMemory stateC_unreported) zidC = Some (zoneC, [7, 8])"
    unfolding state by (simp_all add: recordedZones_def InMemory_find_def zidC_def zoneC_def)
  have sets: "set [zidA, zidA, zidB] = set (recordedZones stateC_unreported 1)"
    "set [zidB, zidA] = set (recordedZones stateC_unreported 1)"
    unfolding before by auto
  have repeated:
    "InMemory_find (inMemory (UpdateUsedZones stateC_unreported 1 [zidA, zidA, zidB])) zidC = None"
    unfolding state
    by (simp add: UpdateUsedZones_defs model_defs fixture_defs zidC_def zoneC_def)
  have swapped:
    "InMemory_find (inMemory (UpdateUsedZones stateC_unreported 1 [zidB, zidA])) zidC = None"
    unfolding state
    by (simp add: UpdateUsedZones_defs model_defs fixture_defs zidC_def zoneC_def)
  have changed: "UpdateUsedZones stateC_unreported 1 [zidA, zidA, zidB] \<noteq> stateC_unreported"
    "UpdateUsedZones stateC_unreported 1 [zidB, zidA] \<noteq> stateC_unreported"
    using before(2) repeated swapped by auto
  show ?thesis
    using forwarded sorted before sets repeated swapped changed by simp
qed

text \<open>
  Claim C5.  \<open>GetZones\<close> of the full-caching cache, called at time \<open>now\<close>: when \<open>now\<close>
  is not after the stored deadline \<open>zonesNext\<close> the zones updater is not run (the provider
  world is unchanged), the cached list and error are returned, the cache and the manager
  are unchanged and one cache-hit metric is recorded.  When \<open>now\<close> is after the deadline
  the zones updater is run exactly once (the world is the one a single run leaves behind)
  and its result is returned and replaces the cached list and error.
\<close>

theorem GetZones_ttl:
  assumes run: "GetZones c s w now updateTime = (r, evs, c', s', w')"
  shows "(now \<le> zonesNext c \<longrightarrow>
            w' = w \<and> r = (zones c, zonesErr c) \<and> c' = c \<and> s' = s \<and>
            evs = [AddGenericRequests M_CACHED_GETZONES 1]) \<and>
         (zonesNext c < now \<longrightarrow>
            w' = snd (zonesUpdater c w) \<and> r = fst (zonesUpdater c w) \<and>
            zones c' = fst (fst (zonesUpdater c w)) \<and>
            zonesErr c' = snd (fst (zonesUpdater c w)) \<and> evs = [])"
proof (intro conjI impI)
  assume "now \<le> zonesNext c"
  then have "\<not> zonesNext c < now" by simp
  from GetZones_hit [OF this, of s w updateTime] run
  show "w' = w" "r = (zones c, zonesErr c)" "c' = c" "s' = s"
    "evs = [AddGenericRequests M_CACHED_GETZONES 1]"
    by simp_all
next
  assume "zonesNext c < now"
  from GetZones_refresh [OF this, of s w updateTime] run
  show "w' = snd (zonesUpdater c w)" "r = fst (zonesUpdater c w)"
    "zones c' = fst (fst (zonesUpdater c w))" "zonesErr c' = snd (fst (zonesUpdater c w))"
    "evs = []"
    by (auto simp: nextBackoff_def Let_def split: if_splits)
qed

theorem GetZones_ttl_witness:
  "GetZones cacheWarm stateA 1 (100 * Second) (101 * Second) =
     (([zoneB, zoneA], None), [AddGenericRequests M_CACHED_GETZONES 1], cacheWarm, stateA, 1) \<and>
   100 * Second \<le> zonesNext cacheWarm \<and>
   GetZones cacheWarm stateA 1 (700 * Second) (701 * Second) =
     (([zoneB, zoneA], None), [], cacheWarm\<lparr>zonesNext := 1301 * Second\<rparr>,
      stateA\<lparr>usedZones := [(1, [zidA, zidB])]\<rparr>, 2) \<and>
   zonesNext cacheWarm < 700 * Second \<and>
   zonesUpdater cacheWarm 1 = (([zoneB, zoneA], None), 2)"
proof -
  have hit: "GetZones cacheWarm stateA 1 (100 * Second) (101 * Second) =
     (([zoneB, zoneA], None), [AddGenericRequests M_CACHED_GETZONES 1], cacheWarm, stateA, 1)"
    by (simp add: GetZones_defs model_defs fixture_defs)
  have refresh: "GetZones cacheWarm stateA 1 (700 * Second) (701 * Second) =
     (([zoneB, zoneA], None), [], cacheWarm\<lparr>zonesNext := 1301 * Second\<rparr>,
      stateA\<lparr>usedZones := [(1, [zidA, zidB])]\<rparr>, 2)"
    by (simp add: GetZones_defs model_defs fixture_defs)
  have facts: "100 * Second \<le> zonesNext cacheWarm" "zonesNext cacheWarm < 700 * Second"
    "zonesUpdater cacheWarm 1 = (([zoneB, zoneA], None), 2)"
    by (simp_all add: cacheWarm_def fixture_defs)
  show ?thesis
    using GetZones_ttl [OF hit] GetZones_ttl [OF refresh] hit refresh facts
    by simp
qed

text \<open>
  Claim C6, amended.  For a refresh by \<open>GetZones\<close>: on success the backoff is reset to zero
  and the deadline is the post-call time plus \<open>zonesTTL\<close>.  On failure the backoff becomes
  what one run of \<open>nextBackoff\<close> computes and the deadline is the post-call time plus
  that backoff.  Provided \<open>zonesTTL\<close> is not negative and \<open>5 * (zonesTTL / 4)\<close> fits a signed
  64-bit duration, a previous backoff between zero and \<open>zonesTTL / 4\<close> is updated to
  \<open>min (previous * 5 / 4 + 2 seconds) (zonesTTL / 4)\<close>, and consecutive failures starting
  from zero backoff stay at or below the cap \<open>zonesTTL / 4\<close>, increase strictly while below
  the cap, stay at the cap once there and reach it after finitely many failures.
\<close>

theorem GetZones_backoff:
  assumes run: "GetZones c s w now updateTime = (r, evs, c', s', w')"
    and refresh: "zonesNext c < now"
  shows "zonesTTL c' = zonesTTL c \<and>
         (snd r = None \<longrightarrow>
            backoffOnError c' = 0 \<and> zonesNext c' = updateTime + zonesTTL c) \<and>
         (snd r \<noteq> None \<longrightarrow>
            backoffOnError c' = backoffOnError (failedRefreshes 1 c) \<and>
            zonesNext c' = updateTime + backoffOnError c') \<and>
         (snd r \<noteq> None \<longrightarrow> 0 \<le> zonesTTL c \<longrightarrow> 5 * (zonesTTL c div 4) < 2 ^ 63 \<longrightarrow>
          0 \<le> backoffOnError c \<longrightarrow> backoffOnError c \<le> zonesTTL c div 4 \<longrightarrow>
            backoffOnError c' = min (backoffOnError c * 5 div 4 + 2 * Second) (zonesTTL c div 4)) \<and>
         (0 \<le> zonesTTL c \<longrightarrow> 5 * (zonesTTL c div 4) < 2 ^ 63 \<longrightarrow> backoffOnError c = 0 \<longrightarrow>
            (\<forall>n. backoffOnError (failedRefreshes n c) \<le> zonesTTL c div 4 \<and>
                 (backoffOnError (failedRefreshes n c) < zonesTTL c div 4 \<longrightarrow>
                    backoffOnError (failedRefreshes n c)
                      < backoffOnError (failedRefreshes (Suc n) c)) \<and>
                 (backoffOnError (failedRefreshes n c) = zonesTTL c div 4 \<longrightarrow>
                    backoffOnError (failedRefreshes (Suc n) c) = zonesTTL c div 4)) \<and>
            (\<exists>n. backoffOnError (failedRefreshes n c) = zonesTTL c div 4))"
proof -
  note eq = GetZones_refresh [OF refresh, of s w updateTime]
  have r: "r = fst (zonesUpdater c w)"
    using eq run by simp
  have c': "c' = (if snd r \<noteq> None
       then (snd (nextBackoff c))
              \<lparr>zones := fst r, zonesErr := snd r, zonesNext := updateTime + fst (nextBackoff c)\<rparr>
       else c\<lparr>zones := fst r, zonesErr := snd r,
              zonesNext := updateTime + zonesTTL c, backoffOnError := 0\<rparr>)"
    using eq run by (simp add: r)
  have ttl: "zonesTTL c' = zonesTTL c"
    by (simp add: c' nextBackoff_fields)
  have ok: "backoffOnError c' = 0 \<and> zonesNext c' = updateTime + zonesTTL c" if "snd r = None"
    using that by (simp add: c')
  have bad: "backoffOnError c' = backoffOnError (failedRefreshes 1 c) \<and>
             zonesNext c' = updateTime + backoffOnError c'" if "snd r \<noteq> None"
    using that by (simp add: c' nextBackoff_fields)
  have formula: "backoffOnError c' = min (backoffOnError c * 5 div 4 + 2 * Second) (zonesTTL c div 4)"
    if "snd r \<noteq> None" "0 \<le> zonesTTL c" "5 * (zonesTTL c div 4) < 2 ^ 63"
       "0 \<le> backoffOnError c" "backoffOnError c \<le> zonesTTL c div 4"
    using that nextBackoff_in_range [of c] by (simp add: c' nextBackoff_fields)
  have seq: "(\<forall>n. backoffOnError (failedRefreshes n c) \<le> zonesTTL c div 4 \<and>
                 (backoffOnError (failedRefreshes n c) < zonesTTL c div 4 \<longrightarrow>
                    backoffOnError (failedRefreshes n c)
                      < backoffOnError (failedRefreshes (Suc n) c)) \<and>
                 (backoffOnError (failedRefreshes n c) = zonesTTL c div 4 \<longrightarrow>
                    backoffOnError (failedRefreshes (Suc n) c) = zonesTTL c div 4)) \<and>
            (\<exists>n. backoffOnError (failedRefreshes n c) = zonesTTL c div 4)"
    if range: "0 \<le> zonesTTL c" "5 * (zonesTTL c div 4) < 2 ^ 63" and zero: "backoffOnError c = 0"
  proof (intro conjI allI impI)
    fix n
    let ?b = "backoffOnError (failedRefreshes n c)"
    note st = failedRefreshes_step [OF range zero, of n]
    have "0 \<le> ?b" using st by simp
    then have up: "?b \<le> ?b * 5 div 4" by presburger
    show "?b \<le> zonesTTL c div 4" using st by simp
    show "?b < backoffOnError (failedRefreshes (Suc n) c)" if "?b < zonesTTL c div 4"
      using st that up by (simp add: Second_def min_def)
    show "backoffOnError (failedRefreshes (Suc n) c) = zonesTTL c div 4" if "?b = zonesTTL c div 4"
      using st that up by (simp add: Second_def min_def)
  next
    let ?n = "nat (zonesTTL c div 4)"
    have "zonesTTL c div 4 \<le> backoffOnError (failedRefreshes ?n c)"
      using failedRefreshes_grows [OF range zero, of ?n] range by simp
    moreover have "backoffOnError (failedRefreshes ?n c) \<le> zonesTTL c div 4"
      using failedRefreshes_step [OF range zero, of ?n] by simp
    ultimately show "\<exists>n. backoffOnError (failedRefreshes n c) = zonesTTL c div 4"
      by (intro exI [of _ ?n]) simp
  qed
  show ?thesis
    using ttl ok bad formula seq by blast
qed


theorem GetZones_backoff_witness:
  "GetZones cacheDown stateA 0 (1 * Second) (2 * Second) =
     (([], Some (OtherError ''no route'')), [],
      cacheDown\<lparr>zonesErr := Some (OtherError ''no route''), zonesNext := 4 * Second,
                backoffOnError := 2 * Second\<rparr>,
      stateA_released, 1) \<and>
   zonesNext cacheDown < 1 * Second \<and> 0 \<le> zonesTTL cacheDown \<and>
   5 * (zonesTTL cacheDown div 4) < 2 ^ 63 \<and> backoffOnError cacheDown = 0 \<and>
   min (backoffOnError cacheDown * 5 div 4 + 2 * Second) (zonesTTL cacheDown div 4) = 2 * Second \<and>
   backoffOnError (failedRefreshes (Suc 0) cacheDown) = 2 * Second \<and>
   2 * Second < backoffOnError (failedRefreshes (Suc (Suc 0)) cacheDown) \<and>
   GetZones cacheWarm stateA 1 (700 * Second) (701 * Second) =
     (([zoneB, zoneA], None), [], cacheWarm\<lparr>zonesNext := 1301 * Second\<rparr>,
      stateA\<lparr>usedZones := [(1, [zidA, zidB])]\<rparr>, 2)"
proof -
  have failure: "GetZones cacheDown stateA 0 (1 * Second) (2 * Second) =
     (([], Some (OtherError ''no route'')), [],
      cacheDown\<lparr>zonesErr := Some (OtherError ''no route''), zonesNext := 4 * Second,
                backoffOnError := 2 * Second\<rparr>,
      stateA_released, 1)"
    apply (simp add: GetZones_def Time_After_def Time_Add_def fixture_defs)
    apply (simp add: nextBackoff_def mul64_def add64_def quo64_def wrap64_def)
    apply (simp add: GetZones_defs model_defs fixture_defs)
    done
  have success: "GetZones cacheWarm stateA 1 (700 * Second) (701 * Second) =
     (([zoneB, zoneA], None), [], cacheWarm\<lparr>zonesNext := 1301 * Second\<rparr>,
      stateA\<lparr>usedZones := [(1, [zidA, zidB])]\<rparr>, 2)"
    by (simp add: GetZones_defs model_defs fixture_defs)
  have due: "zonesNext cacheDown < 1 * Second" "zonesNext cacheWarm < 700 * Second"
    by (simp_all add: cacheWarm_def fixture_defs)
  have range: "0 \<le> zonesTTL cacheDown" "5 * (zonesTTL cacheDown div 4) < 2 ^ 63"
    "backoffOnError cacheDown = 0"
    by (simp_all add: fixture_defs)
  have first: "backoffOnError (failedRefreshes (Suc 0) cacheDown) = 2 * Second"
    "zonesTTL cacheDown div 4 = 150 * Second"
    by (simp_all add: GetZones_defs fixture_defs)
  note failing = GetZones_backoff [OF failure due(1)]
  from failing range
  have "backoffOnError (failedRefreshes (Suc 0) cacheDown) < zonesTTL cacheDown div 4 \<longrightarrow>
        backoffOnError (failedRefreshes (Suc 0) cacheDown)
          < backoffOnError (failedRefreshes (Suc (Suc 0)) cacheDown)"
    by blast
  then have grows: "2 * Second < backoffOnError (failedRefreshes (Suc (Suc 0)) cacheDown)"
    unfolding first by (simp add: Second_def)
  show ?thesis
    using failing GetZones_backoff [OF success due(2)] failure success due range first grows
    by (simp add: Second_def)
qed

text \<open>
  Without the bounds on \<open>zonesTTL\<close> claim C6 fails as stated.  With the largest duration as TTL
  the product \<open>backoff * 5\<close> overflows at the 88th consecutive failure, before the cap is
  reached, and the backoff drops to a negative value.  With a negative TTL of four
  billion seconds the first failure sets the backoff to the cap and the second one moves
  it below the cap.
\<close>

theorem GetZones_backoff_counterexample:
  "backoffOnError cacheLongTTL = 0 \<and>
   zonesTTL cacheLongTTL div 4 = 2305843009213693951 \<and>
   backoffOnError (failedRefreshes 87 cacheLongTTL) = 2159042130706067063 \<and>
   backoffOnError (failedRefreshes 88 cacheLongTTL) = - 1912883353044804075 \<and>
   backoffOnError (failedRefreshes 88 cacheLongTTL) \<noteq>
     min (backoffOnError (failedRefreshes 87 cacheLongTTL) * 5 div 4 + 2 * Second)
         (zonesTTL cacheLongTTL div 4) \<and>
   backoffOnError cacheNegTTL = 0 \<and>
   zonesTTL cacheNegTTL div 4 = - 1000000000000000000 \<and>
   backoffOnError (failedRefreshes (Suc 0) cacheNegTTL) = - 1000000000000000000 \<and>
   backoffOnError (failedRefreshes (Suc (Suc 0)) cacheNegTTL) = - 1249999998000000000"
proof -
  have start: "backoffOnError cacheLongTTL = 0" "zonesTTL cacheLongTTL = 9223372036854775807"
    by (simp_all add: cacheLongTTL_def fixture_defs)
  have b87: "backoffOnError (failedRefreshes 87 cacheLongTTL) = 2159042130706067063"
    by code_simp
  have step: "failedRefreshes 88 cacheLongTTL = snd (nextBackoff (failedRefreshes 87 cacheLongTTL))"
    using failedRefreshes.simps(2) [of 87 cacheLongTTL] by simp
  have b88: "backoffOnError (failedRefreshes 88 cacheLongTTL) = - 1912883353044804075"
    unfolding step
    by (simp add: nextBackoff_def b87 failedRefreshes_TTL start mul64_def add64_def quo64_def
          wrap64_def Second_def)
  have negative: "backoffOnError cacheNegTTL = 0"
    "zonesTTL cacheNegTTL div 4 = - 1000000000000000000"
    "backoffOnError (failedRefreshes (Suc 0) cacheNegTTL) = - 1000000000000000000"
    "backoffOnError (failedRefreshes (Suc (Suc 0)) cacheNegTTL) = - 1249999998000000000"
    by (simp_all add: cacheNegTTL_def nextBackoff_def mul64_def add64_def quo64_def wrap64_def
          fixture_defs)
  show ?thesis
    unfolding b88 b87 negative by (simp add: start Second_def)
qed

text \<open>
  Claim C7.  \<open>zoneStates.GetZoneState\<close> called at a time \<open>start\<close> after
  \<open>lastUpdateEnd + TTL(zoneID)\<close> with a failing state updater: the call returns the
  callback's error itself, with no snapshot and \<open>wasCached = false\<close>; afterwards the
  record store and the forwarded-domains cache have no entry for the zone and both
  timestamps of the zone's proxy are zero.  Every later call for the zone whose clock
  reading is past the zone's TTL (counted from the zero time) runs the state updater again
  and is not served from the cache.
\<close>

theorem GetZoneState_failed_refresh:
  fixes cache :: "('w, 'st) defaultZoneCache"
  assumes run: "zoneStates_GetZoneState clone s zone cache w start finish = (r, s', w')"
    and expired: "lastUpdateEnd (proxyTimes s (ZoneId zone)) + stateTTLGetter s (ZoneId zone) < start"
    and failed: "stateUpdater cache zone w = (Inl e, w1)"
  shows "r = (None, False, Some e) \<and> w' = w1 \<and>
         InMemory_find (inMemory s') (ZoneId zone) = None \<and>
         forwardedDomains s' (ZoneId zone) = None \<and>
         map_of (proxies s') (ZoneId zone) = Some zeroProxy \<and>
         (\<forall>(cache2 :: ('w, 'st) defaultZoneCache) w2 start2 finish2.
            stateTTLGetter s (ZoneId zone) < start2 \<longrightarrow>
            \<not> fst (snd (fst (zoneStates_GetZoneState clone s' zone cache2 w2 start2 finish2))) \<and>
            snd (snd (zoneStates_GetZoneState clone s' zone cache2 w2 start2 finish2)) =
              snd (stateUpdater cache2 zone w2))"
proof -
  let ?z = "ZoneId zone"
  have eq: "(r, s', w') =
      ((None, False, Some e), cleanZoneState (snd (getProxy s ?z)) ?z (Some ?z), w1)"
    using run failed by (simp add: GetZoneState_expired [OF expired])
  then have s': "s' = cleanZoneState (snd (getProxy s ?z)) ?z (Some ?z)" by simp
  have store: "InMemory_find (inMemory s') ?z = None"
    by (simp add: s' cleanZoneState_inMemory find_DeleteZone)
  have fwd: "forwardedDomains s' ?z = None"
    by (simp add: s' cleanZoneState_forwardedDomains)
  have prox: "map_of (proxies s') ?z = Some zeroProxy"
    by (simp add: s' clean_after_getProxy)
  have ttl: "stateTTLGetter s' = stateTTLGetter s"
    by (simp add: s' cleanZoneState_stateTTLGetter getProxy_fields)
  have later: "lastUpdateEnd (proxyTimes s' ?z) + stateTTLGetter s' ?z < start2"
    if "stateTTLGetter s ?z < start2" for start2
    using that prox by (simp add: proxyTimes_def ttl zeroProxy_def)
  note again = GetZoneState_expired_refreshes [OF later]
  from eq have res: "r = (None, False, Some e)" "w' = w1" by simp_all
  show ?thesis
    using res store fwd prox by (simp add: again)
qed

theorem GetZoneState_failed_refresh_witness:
  "zoneStates_GetZoneState rev stateA zoneA cacheDown 0 (80 * Second) (81 * Second) =
       ((None, False, Some (OtherError ''timeout'')), stateA_cleaned, 1) \<and>
   lastUpdateEnd (proxyTimes stateA (ZoneId zoneA)) + stateTTLGetter stateA (ZoneId zoneA)
       < 80 * Second \<and>
   stateUpdater cacheDown zoneA 0 = (Inl (OtherError ''timeout''), 1) \<and>
   InMemory_find (inMemory stateA_cleaned) (ZoneId zoneA) = None \<and>
   forwardedDomains stateA_cleaned (ZoneId zoneA) = None \<and>
   map_of (proxies stateA_cleaned) (ZoneId zoneA) = Some zeroProxy \<and>
   stateTTLGetter stateA (ZoneId zoneA) < 90 * Second \<and>
   snd (snd (zoneStates_GetZoneState rev stateA_cleaned zoneA cacheOK 1 (90 * Second) (91 * Second))) = 2"
proof -
  have run: "zoneStates_GetZoneState rev stateA zoneA cacheDown 0 (80 * Second) (81 * Second) =
       ((None, False, Some (OtherError ''timeout'')), stateA_cleaned, 1)"
    by (simp add: model_defs fixture_defs)
  have expired: "lastUpdateEnd (proxyTimes stateA (ZoneId zoneA)) + stateTTLGetter stateA (ZoneId zoneA)
       < 80 * Second"
    by (simp add: model_defs fixture_defs)
  have failed: "stateUpdater cacheDown zoneA 0 = (Inl (OtherError ''timeout''), 1)"
    by (simp add: fixture_defs)
  have later: "stateTTLGetter stateA (ZoneId zoneA) < 90 * Second"
    by (simp add: fixture_defs)
  have upd: "snd (stateUpdater cacheOK zoneA (1::nat)) = 2"
    by (simp add: fixture_defs)
  note cleaned = GetZoneState_failed_refresh [OF run expired failed]
  from cleaned later
  have again: "snd (snd (zoneStates_GetZoneState rev stateA_cleaned zoneA cacheOK 1
                  (90 * Second) (91 * Second))) = snd (stateUpdater cacheOK zoneA 1)"
    by blast
  show ?thesis
    using cleaned run expired failed later upd again
    by simp
qed

text \<open>
  Claim C8.  \<open>ApplyRequests\<close> with a prior write error: for a throttling error the
  manager state is returned as it was, record store, forwarded domains and proxies
  included, and no cache-discard signal is emitted; for any other error the zone is
  invalidated (no record-store entry, no forwarded-domains entry, proxy timestamps zero)
  and exactly one cache-discard signal is emitted for the zone.
\<close>

theorem ApplyRequests_prior_error:
  assumes run: "ApplyRequests change s (Some e) zone reqs = (evs, s')"
  shows "(IsThrottlingError e \<longrightarrow> s' = s \<and> AddZoneCacheDiscarding (ZoneId zone) \<notin> set evs) \<and>
         (\<not> IsThrottlingError e \<longrightarrow>
            InMemory_find (inMemory s') (ZoneId zone) = None \<and>
            forwardedDomains s' (ZoneId zone) = None \<and>
            map_of (proxies s') (ZoneId zone) = Some zeroProxy \<and>
            count_list evs (AddZoneCacheDiscarding (ZoneId zone)) = 1)"
  using run
  by (auto simp: ApplyRequests_def defaultZoneCache_cleanZoneState_def CleanZoneState_def
        case_prod_unfold cleanZoneState_inMemory find_DeleteZone cleanZoneState_forwardedDomains
        clean_after_getProxy split: if_splits)

theorem ApplyRequests_prior_error_witness:
  "ApplyRequests appendChange stateA (Some (ThrottlingError ''rate exceeded'')) zoneA [3, 4] =
       ([Infof ''zone cache untouched (only throttling during ExecuteRequests)''], stateA) \<and>
   IsThrottlingError (ThrottlingError ''rate exceeded'') \<and>
   ApplyRequests appendChange stateA (Some (OtherError ''access denied'')) zoneA [3, 4] =
       ([Infof ''zone cache discarded because of error during ExecuteRequests'',
         AddZoneCacheDiscarding zidA], stateA_cleaned) \<and>
   \<not> IsThrottlingError (OtherError ''access denied'') \<and>
   InMemory_find (inMemory stateA_cleaned) (ZoneId zoneA) = None \<and>
   forwardedDomains stateA_cleaned (ZoneId zoneA) = None \<and>
   map_of (proxies stateA_cleaned) (ZoneId zoneA) = Some zeroProxy"
proof -
  have throttled: "ApplyRequests appendChange stateA (Some (ThrottlingError ''rate exceeded'')) zoneA [3, 4] =
       ([Infof ''zone cache untouched (only throttling during ExecuteRequests)''], stateA)"
    by (simp add: more_defs)
  have denied: "ApplyRequests appendChange stateA (Some (OtherError ''access denied'')) zoneA [3, 4] =
       ([Infof ''zone cache discarded because of error during ExecuteRequests'',
         AddZoneCacheDiscarding zidA], stateA_cleaned)"
    by (simp add: more_defs model_defs fixture_defs)
  show ?thesis
    using ApplyRequests_prior_error [OF throttled] ApplyRequests_prior_error [OF denied]
      throttled denied
    by simp
qed

text \<open>
  Claim C10.  \<open>Release\<close> reports the empty usage list.  For a consumer without a recorded
  usage list the manager is returned unchanged, record store, proxy registry, forwarded
  domains and the other consumers' records included; releasing twice gives the same
  manager state as releasing once.
\<close>

theorem Release_idempotent:
  "(map_of (usedZones s) (ident c) = None \<longrightarrow> Release c s = s) \<and>
   Release c (Release c s) = Release c s"
proof
  show "map_of (usedZones s) (ident c) = None \<longrightarrow> Release c s = s"
    by (simp add: Release_def UpdateUsedZones_same recordedZones_def)
  show "Release c (Release c s) = Release c s"
  proof (cases "recordedZones s (ident c) = []")
    case True
    then show ?thesis by (simp add: Release_def UpdateUsedZones_same)
  next
    case False
    then have "usedZones (Release c s) = AList.delete (ident c) (usedZones s)"
      by (simp add: Release_def UpdateUsedZones_changed collectUnused_usedZones)
    then have "recordedZones (Release c s) (ident c) = []"
      by (simp add: recordedZones_def delete_conv')
    then show ?thesis
      using UpdateUsedZones_same [of "Release c s" "ident c" "[]"] by (simp add: Release_def)
  qed
qed

theorem Release_idempotent_witness:
  "map_of (usedZones stateA_released) (ident cacheOK) = None \<and>
   Release cacheOK stateA_released = stateA_released \<and>
   Release cacheOK stateA = stateA_released \<and>
   Release cacheOK (Release cacheOK stateA) = stateA_released"
proof -
  have none: "map_of (usedZones stateA_released) (ident cacheOK) = None"
    by (simp add: stateA_released_def cacheOK_def)
  have once: "Release cacheOK stateA = stateA_released"
    by (simp add: UpdateUsedZones_defs model_defs fixture_defs)
  show ?thesis
    using Release_idempotent [of stateA_released cacheOK] Release_idempotent [of stateA cacheOK]
      none once
    by simp
qed

end
